theory Spec2Isabelle
  imports Complex_Main
begin

section \<open>JavaScript values used by the editor\<close>

text \<open>
  Exceptions are values. The first three constructors are instances of the JavaScript
  \<open>Error\<close> class and carry its \<open>message\<close>; \<open>NotAnError\<close> is any other thrown or
  rejected value (the \<open>ProgressEvent\<close> a \<open>FileReader\<close> rejects with, for example).
\<close>

datatype js_exn = Error string | TypeError string | SyntaxError string | NotAnError

text \<open>\<open>xs[i]\<close> on a JavaScript array: \<open>undefined\<close> (here \<open>None\<close>) outside the array.\<close>

definition js_index :: "'a list \<Rightarrow> int \<Rightarrow> 'a option" where
  "js_index xs i = (if 0 \<le> i \<and> i < int (length xs) then Some (xs ! nat i) else None)"

text \<open>\<open>xs.slice(0, e)\<close>: a negative end counts from the end of the array.\<close>

definition slice0 :: "'a list \<Rightarrow> int \<Rightarrow> 'a list" where
  "slice0 xs e =
     (let n = int (length xs);
          k = (if e < 0 then max (n + e) 0 else min e n)
      in take (nat k) xs)"

text \<open>\<open>s.replace('-', ' ')\<close> with a string pattern replaces the first occurrence only.\<close>

fun replace_first :: "char \<Rightarrow> char \<Rightarrow> string \<Rightarrow> string" where
  "replace_first a b [] = []"
| "replace_first a b (c # cs) = (if c = a then b # cs else c # replace_first a b cs)"

text \<open>\<open>x || d\<close> on a string that may be \<open>undefined\<close>: the empty string is falsy.\<close>

definition or_default :: "string option \<Rightarrow> string \<Rightarrow> string" where
  "or_default x d = (case x of None \<Rightarrow> d | Some v \<Rightarrow> if v = [] then d else v)"

text \<open>A value that may be \<open>undefined\<close>, interpolated in a template literal.\<close>

definition interpolate :: "string option \<Rightarrow> string" where
  "interpolate x = (case x of None \<Rightarrow> ''undefined'' | Some v \<Rightarrow> v)"

text \<open>\<open>s.split(c)\<close> with a one-character separator; the empty string gives one empty piece.\<close>

fun split_on :: "char \<Rightarrow> string \<Rightarrow> string list" where
  "split_on c [] = [[]]"
| "split_on c (x # xs) =
     (if x = c then [] # split_on c xs
      else (case split_on c xs of [] \<Rightarrow> [[x]] | p # ps \<Rightarrow> (x # p) # ps))"

text \<open>Decimal digits of a number, as a template literal prints it.\<close>

definition digit :: "nat \<Rightarrow> char" where
  "digit d = ''0123456789'' ! d"

fun show_nat :: "nat \<Rightarrow> string" where
  "show_nat n = (if n < 10 then [digit n] else show_nat (n div 10) @ [digit (n mod 10)])"

declare show_nat.simps [simp del]

section \<open>imageUtils.ts: upload validation\<close>

text \<open>
  The fields of a browser \<open>File\<close> that the code reads, and the bytes of the file, which
  the file reader reads. A character is a byte, and \<open>fsize\<close> is the number of bytes of
  a file that the browser hands over.
\<close>

record File =
  fname :: string
  ftype :: string
  fsize :: nat
  content :: string

record validation =
  valid :: bool
  verror :: "string option"

definition maxSize :: nat where
  "maxSize = 10 * 1024 * 1024"

definition allowedTypes :: "string list" where
  "allowedTypes = [''image/jpeg'', ''image/jpg'', ''image/png'', ''image/webp'', ''image/gif'']"

definition validateImageFile :: "File \<Rightarrow> validation" where
  "validateImageFile f =
     (if \<not> List.member allowedTypes (ftype f) then
        \<lparr>valid = False,
         verror = Some ''Please upload a valid image file (JPEG, PNG, WebP, or GIF)''\<rparr>
      else if fsize f > maxSize then
        \<lparr>valid = False, verror = Some ''Image size must be less than 10MB''\<rparr>
      else \<lparr>valid = True, verror = None\<rparr>)"

text \<open>
  \<open>fileToBase64\<close>: \<open>readAsDataURL\<close> is the browser's \<open>FileReader\<close>, \<open>None\<close> when
  it reports an error (the promise is then rejected with the reader's event). The result is
  the second piece of the data URL split at commas, \<open>undefined\<close> when there is no comma.
\<close>

definition fileToBase64 :: "(File \<Rightarrow> string option) \<Rightarrow> File \<Rightarrow> js_exn + string option" where
  "fileToBase64 readAsDataURL f =
     (case readAsDataURL f of
        None \<Rightarrow> Inl NotAnError
      | Some result \<Rightarrow> Inr (js_index (split_on CHR '','' result) 1))"

text \<open>
  The base64 text of a sequence of bytes (RFC 4648, with padding), and what
  \<open>FileReader.readAsDataURL\<close> delivers for a file as the File API defines it: \<open>data:\<close>,
  the type of the file, \<open>;base64,\<close> and the base64 text of its bytes.
\<close>

definition b64_alphabet :: string where
  "b64_alphabet = ''ABCDEFGHIJKLMNOPQRSTUVWXYZabcdefghijklmnopqrstuvwxyz0123456789+/''"

definition b64_char :: "nat \<Rightarrow> char" where
  "b64_char n = b64_alphabet ! n"

fun base64 :: "string \<Rightarrow> string" where
  "base64 [] = []"
| "base64 [a] =
     (let x = of_char a :: nat
      in [b64_char (x div 4), b64_char (x mod 4 * 16), CHR ''='', CHR ''=''])"
| "base64 [a, b] =
     (let x = of_char a :: nat; y = of_char b :: nat
      in [b64_char (x div 4), b64_char (x mod 4 * 16 + y div 16), b64_char (y mod 16 * 4),
          CHR ''=''])"
| "base64 (a # b # c # rest) =
     (let x = of_char a :: nat; y = of_char b :: nat; z = of_char c :: nat
      in [b64_char (x div 4), b64_char (x mod 4 * 16 + y div 16),
          b64_char (y mod 16 * 4 + z div 64), b64_char (z mod 64)] @ base64 rest)"

text \<open>
  The six-bit values behind the base64 text of a sequence of bytes, and its padding.
\<close>

fun sextets :: "string \<Rightarrow> nat list" where
  "sextets [] = []"
| "sextets [a] = (let x = of_char a :: nat in [x div 4, x mod 4 * 16])"
| "sextets [a, b] =
     (let x = of_char a :: nat; y = of_char b :: nat
      in [x div 4, x mod 4 * 16 + y div 16, y mod 16 * 4])"
| "sextets (a # b # c # rest) =
     (let x = of_char a :: nat; y = of_char b :: nat; z = of_char c :: nat
      in [x div 4, x mod 4 * 16 + y div 16, y mod 16 * 4 + z div 64, z mod 64] @ sextets rest)"

fun padding :: "string \<Rightarrow> string" where
  "padding [] = []"
| "padding [a] = ''==''"
| "padding [a, b] = ''=''"
| "padding (a # b # c # rest) = padding rest"

definition dataURL :: "File \<Rightarrow> string" where
  "dataURL f =
     ''data:'' @ (if ftype f = [] then ''application/octet-stream'' else ftype f) @
     '';base64,'' @ base64 (content f)"

section \<open>aiService.ts: the remote processing client\<close>

subsection \<open>Parsed JSON and the property reads made on it\<close>

datatype json =
  JNull | JBool bool | JNum rat | JStr string | JArr "json list" | JObj "(string \<times> json) list"

text \<open>A JavaScript value read from the parsed response: \<open>None\<close> is \<open>undefined\<close>.\<close>

type_synonym js_value = "json option"

fun truthy :: "js_value \<Rightarrow> bool" where
  "truthy None = False"
| "truthy (Some JNull) = False"
| "truthy (Some (JBool b)) = b"
| "truthy (Some (JNum n)) = (n \<noteq> 0)"
| "truthy (Some (JStr s)) = (s \<noteq> [])"
| "truthy (Some (JArr xs)) = True"
| "truthy (Some (JObj kvs)) = True"

text \<open>The message of the \<open>TypeError\<close> for a property read on \<open>null\<close> or \<open>undefined\<close>.\<close>

definition cannot_read :: "string \<Rightarrow> string \<Rightarrow> js_exn" where
  "cannot_read what k =
     TypeError (''Cannot read properties of '' @ what @ '' (reading '' @
                [CHR 0x27] @ k @ [CHR 0x27] @ '')'')"

text \<open>
  \<open>v.k\<close> for the keys \<open>choices\<close>, \<open>message\<close> and \<open>content\<close>, which no prototype
  defines: a \<open>TypeError\<close> on \<open>null\<close> and \<open>undefined\<close>, the member of an object (the
  last one when \<open>JSON.parse\<close> met the key twice), \<open>undefined\<close> on anything else.
\<close>

fun get :: "string \<Rightarrow> js_value \<Rightarrow> js_exn + js_value" where
  "get k None = Inl (cannot_read ''undefined'' k)"
| "get k (Some JNull) = Inl (cannot_read ''null'' k)"
| "get k (Some (JObj kvs)) = Inr (map_of (rev kvs) k)"
| "get k (Some v) = Inr None"

text \<open>\<open>v[0]\<close>: the first element of an array, the first character of a string, the
  member \<open>0\<close> of an object.\<close>

fun get0 :: "js_value \<Rightarrow> js_exn + js_value" where
  "get0 None = Inl (cannot_read ''undefined'' ''0'')"
| "get0 (Some JNull) = Inl (cannot_read ''null'' ''0'')"
| "get0 (Some (JArr xs)) = Inr (case xs of [] \<Rightarrow> None | x # _ \<Rightarrow> Some x)"
| "get0 (Some (JStr s)) = Inr (case s of [] \<Rightarrow> None | c # _ \<Rightarrow> Some (JStr [c]))"
| "get0 (Some (JObj kvs)) = Inr (map_of (rev kvs) ''0'')"
| "get0 (Some v) = Inr None"

text \<open>Optional chaining \<open>v?.k\<close> and \<open>v?.[0]\<close>: \<open>undefined\<close> instead of the \<open>TypeError\<close>.\<close>

definition get_opt :: "string \<Rightarrow> js_value \<Rightarrow> js_value" where
  "get_opt k v = (case get k v of Inl _ \<Rightarrow> None | Inr x \<Rightarrow> x)"

definition get0_opt :: "js_value \<Rightarrow> js_value" where
  "get0_opt v = (case get0 v of Inl _ \<Rightarrow> None | Inr x \<Rightarrow> x)"

text \<open>Sequencing of computations that may throw.\<close>

definition and_then :: "js_exn + 'a \<Rightarrow> ('a \<Rightarrow> js_exn + 'b) \<Rightarrow> js_exn + 'b" where
  "and_then m f = (case m of Inl e \<Rightarrow> Inl e | Inr x \<Rightarrow> f x)"

subsection \<open>The image URL pattern\<close>

text \<open>
  \<open>content.match(/(https?:\/\/[^\s]+\.(?:jpg|jpeg|png|webp|gif))/i)\<close>, on strings whose
  characters are the code points below 256. The match is the leftmost one; \<open>[^\s]+\<close> is
  greedy and gives characters back one at a time; the alternatives are tried in order.
\<close>

definition is_space :: "char \<Rightarrow> bool" where
  "is_space c = (c \<in> set [CHR 0x09, CHR 0x0A, CHR 0x0B, CHR 0x0C, CHR 0x0D, CHR 0x20, CHR 0xA0])"

definition upper :: "char \<Rightarrow> char" where
  "upper c =
     (case map_of (zip ''abcdefghijklmnopqrstuvwxyz'' ''ABCDEFGHIJKLMNOPQRSTUVWXYZ'') c of
        None \<Rightarrow> c | Some u \<Rightarrow> u)"

text \<open>A literal of the pattern at the start of the input: the text matched and the rest.\<close>

fun lit :: "string \<Rightarrow> string \<Rightarrow> (string \<times> string) option" where
  "lit [] s = Some ([], s)"
| "lit (p # ps) [] = None"
| "lit (p # ps) (c # cs) =
     (if upper p = upper c then map_option (\<lambda>(m, r). (c # m, r)) (lit ps cs) else None)"

fun first_match :: "string list \<Rightarrow> string \<Rightarrow> string option" where
  "first_match [] s = None"
| "first_match (e # es) s =
     (case lit e s of Some (m, r) \<Rightarrow> Some m | None \<Rightarrow> first_match es s)"

text \<open>\<open>\.(?:jpg|jpeg|png|webp|gif)\<close> at the start of the input.\<close>

definition extension :: "string \<Rightarrow> string option" where
  "extension s =
     (case s of
        [] \<Rightarrow> None
      | c # r \<Rightarrow>
          if c = CHR ''.'' then
            map_option (\<lambda>m. c # m) (first_match [''jpg'', ''jpeg'', ''png'', ''webp'', ''gif''] r)
          else None)"

text \<open>\<open>[^\s]+\<close> holding \<open>k\<close> characters, then the extension; fewer characters on failure.\<close>

fun backtrack :: "nat \<Rightarrow> string \<Rightarrow> string option" where
  "backtrack 0 s = None"
| "backtrack (Suc k) s =
     (case extension (drop (Suc k) s) of
        Some e \<Rightarrow> Some (take (Suc k) s @ e)
      | None \<Rightarrow> backtrack k s)"

definition after_scheme :: "string \<Rightarrow> string \<Rightarrow> string option" where
  "after_scheme pre s =
     (case lit ''://'' s of
        None \<Rightarrow> None
      | Some (m, r) \<Rightarrow>
          map_option (\<lambda>t. pre @ m @ t)
            (backtrack (length (takeWhile (\<lambda>c. \<not> is_space c) r)) r))"

definition match_at :: "string \<Rightarrow> string option" where
  "match_at s =
     (case lit ''http'' s of
        None \<Rightarrow> None
      | Some (h, r) \<Rightarrow>
          (case (case lit ''s'' r of None \<Rightarrow> None | Some (m, r') \<Rightarrow> after_scheme (h @ m) r') of
             Some u \<Rightarrow> Some u
           | None \<Rightarrow> after_scheme h r))"

fun url_match :: "string \<Rightarrow> string option" where
  "url_match [] = None"
| "url_match (c # cs) =
     (case match_at (c # cs) of Some u \<Rightarrow> Some u | None \<Rightarrow> url_match cs)"

subsection \<open>extractImageFromResponse\<close>

text \<open>
  The last line, \<open>response.choices?.[0]?.message?.content || ''\<close>. It is reached with a
  string or with \<open>undefined\<close> only: any other content has made \<open>content.match\<close> throw.
\<close>

definition content_or_empty :: "json \<Rightarrow> string" where
  "content_or_empty response =
     (case get_opt ''content'' (get_opt ''message'' (get0_opt (get_opt ''choices'' (Some response)))) of
        Some (JStr s) \<Rightarrow> s
      | _ \<Rightarrow> [])"

definition extractImageFromResponse :: "json \<Rightarrow> js_exn + string" where
  "extractImageFromResponse response =
     and_then (get ''choices'' (Some response)) (\<lambda>choices.
       if \<not> truthy choices then Inr (content_or_empty response)
       else and_then (get0 choices) (\<lambda>first.
         if \<not> truthy first then Inr (content_or_empty response)
         else and_then (get ''message'' first) (\<lambda>message.
           if \<not> truthy message then Inr (content_or_empty response)
           else and_then (get ''content'' message) (\<lambda>content.
             case content of
               Some (JStr s) \<Rightarrow>
                 (case url_match s of
                    Some u \<Rightarrow> Inr u
                  | None \<Rightarrow> Inr (content_or_empty response))
             | None \<Rightarrow> Inl (cannot_read ''undefined'' ''match'')
             | Some JNull \<Rightarrow> Inl (cannot_read ''null'' ''match'')
             | _ \<Rightarrow> Inl (TypeError ''content.match is not a function'')))))"

subsection \<open>Requests, prompts and processImage\<close>

record edit_parameters =
  style :: "string option"
  prompt :: "string option"

text \<open>\<open>image\<close> is the base64 text, \<open>None\<close> when the caller passed \<open>undefined\<close>.\<close>

record AIImageEditRequest =
  image :: "string option"
  req_operation :: string
  parameters :: "edit_parameters option"

record AIServiceResponse =
  success :: bool
  data :: "string option"
  error :: "string option"
  processingTime :: int

text \<open>\<open>request.parameters?.style\<close> and \<open>request.parameters?.prompt\<close>.\<close>

definition style_of :: "edit_parameters option \<Rightarrow> string option" where
  "style_of ps = (case ps of None \<Rightarrow> None | Some p \<Rightarrow> style p)"

definition prompt_of :: "edit_parameters option \<Rightarrow> string option" where
  "prompt_of ps = (case ps of None \<Rightarrow> None | Some p \<Rightarrow> prompt p)"

definition buildPromptForOperation :: "AIImageEditRequest \<Rightarrow> string" where
  "buildPromptForOperation request =
     (if req_operation request = ''background-removal'' then
        ''Remove the background from this image, making it transparent while keeping the main subject intact and sharp. Output a high-quality image with clean edges.''
      else if req_operation request = ''style-transfer'' then
        ''Transform this image into '' @ or_default (style_of (parameters request)) ''artistic'' @
        '' style. Apply the artistic transformation while maintaining the core composition and subject matter. Make it visually appealing and high quality.''
      else if req_operation request = ''enhance'' then
        ''Enhance this image by improving clarity, sharpness, color saturation, and overall quality. Upscale if necessary while maintaining natural appearance and removing any noise or artifacts.''
      else if req_operation request = ''object-removal'' then
        ''Remove '' @ or_default (prompt_of (parameters request)) ''unwanted object'' @
        '' from this image and seamlessly fill in the background. Ensure the removal looks natural and the background blends perfectly without any artifacts.''
      else if req_operation request = ''artistic-filter'' then
        ''Apply a '' @ or_default (style_of (parameters request)) ''watercolor'' @
        '' artistic filter to this image. Transform it into a beautiful artistic representation while preserving the main elements and composition.''
      else ''Process and enhance this image to improve its overall quality and appearance.'')"

text \<open>
  The call made by \<open>fetch\<close>. The body is the payload before \<open>JSON.stringify\<close>: the model
  name and the single user message with its text part and its image part.
\<close>

record payload =
  model :: string
  text_part :: string
  image_url :: string

record fetch_request =
  endpoint :: string
  http_method :: string
  headers :: "(string \<times> string) list"
  body :: payload

definition build_request :: "AIImageEditRequest \<Rightarrow> fetch_request" where
  "build_request request =
     \<lparr>endpoint = ''https://oi-server.onrender.com/chat/completions'',
      http_method = ''POST'',
      headers = [(''customerId'', ''sijanbastola1@gmail.com''),
                 (''Content-Type'', ''application/json''),
                 (''Authorization'', ''Bearer xxx'')],
      body = \<lparr>model = ''replicate/black-forest-labs/flux-1.1-pro'',
               text_part = buildPromptForOperation request,
               image_url = ''data:image/jpeg;base64,'' @ interpolate (image request)\<rparr>\<rparr>"

text \<open>
  What \<open>fetch\<close> resolves to: the status line and the outcome of \<open>response.json()\<close>.
  \<open>response.ok\<close> is true for the statuses 200 to 299.
\<close>

record response =
  status :: nat
  statusText :: string
  json_body :: "js_exn + json"

definition ok :: "response \<Rightarrow> bool" where
  "ok r = (200 \<le> status r \<and> status r \<le> 299)"

text \<open>The network: a request is answered by a response, or \<open>fetch\<close> rejects.\<close>

type_synonym network = "fetch_request \<Rightarrow> js_exn + response"

text \<open>The body of the \<open>try\<close> block, after the request is built.\<close>

definition processImage_try :: "network \<Rightarrow> fetch_request \<Rightarrow> js_exn + string" where
  "processImage_try fetch req =
     and_then (fetch req) (\<lambda>r.
       if \<not> ok r then
         Inl (Error (''AI service error: '' @ show_nat (status r) @ '' '' @ statusText r))
       else and_then (json_body r) extractImageFromResponse)"

text \<open>\<open>error instanceof Error ? error.message : 'Unknown error occurred'\<close>.\<close>

fun message_of :: "js_exn \<Rightarrow> string" where
  "message_of (Error m) = m"
| "message_of (TypeError m) = m"
| "message_of (SyntaxError m) = m"
| "message_of NotAnError = ''Unknown error occurred''"

text \<open>
  \<open>processImage\<close>: \<open>startTime\<close> and \<open>endTime\<close> are the two readings of \<open>Date.now()\<close>.
  The second component lists the calls of \<open>fetch\<close> in order.
\<close>

definition processImage ::
  "network \<Rightarrow> int \<Rightarrow> int \<Rightarrow> AIImageEditRequest \<Rightarrow> AIServiceResponse \<times> fetch_request list" where
  "processImage fetch startTime endTime request =
     (let req = build_request request in
      (case processImage_try fetch req of
         Inr imageUrl \<Rightarrow>
           \<lparr>success = True, data = Some imageUrl, error = None,
            processingTime = endTime - startTime\<rparr>
       | Inl e \<Rightarrow>
           \<lparr>success = False, data = None, error = Some (message_of e),
            processingTime = endTime - startTime\<rparr>,
       [req]))"

definition removeBackground ::
  "network \<Rightarrow> int \<Rightarrow> int \<Rightarrow> string option \<Rightarrow> AIServiceResponse \<times> fetch_request list" where
  "removeBackground fetch t0 t1 imageBase64 =
     processImage fetch t0 t1
       \<lparr>image = imageBase64, req_operation = ''background-removal'', parameters = None\<rparr>"

definition applyStyleTransfer ::
  "network \<Rightarrow> int \<Rightarrow> int \<Rightarrow> string option \<Rightarrow> string \<Rightarrow> AIServiceResponse \<times> fetch_request list" where
  "applyStyleTransfer fetch t0 t1 imageBase64 st =
     processImage fetch t0 t1
       \<lparr>image = imageBase64, req_operation = ''style-transfer'',
        parameters = Some \<lparr>style = Some st, prompt = None\<rparr>\<rparr>"

definition enhanceImage ::
  "network \<Rightarrow> int \<Rightarrow> int \<Rightarrow> string option \<Rightarrow> AIServiceResponse \<times> fetch_request list" where
  "enhanceImage fetch t0 t1 imageBase64 =
     processImage fetch t0 t1
       \<lparr>image = imageBase64, req_operation = ''enhance'', parameters = None\<rparr>"

definition removeObject ::
  "network \<Rightarrow> int \<Rightarrow> int \<Rightarrow> string option \<Rightarrow> string \<Rightarrow> AIServiceResponse \<times> fetch_request list" where
  "removeObject fetch t0 t1 imageBase64 objectDescription =
     processImage fetch t0 t1
       \<lparr>image = imageBase64, req_operation = ''object-removal'',
        parameters = Some \<lparr>style = None, prompt = Some objectDescription\<rparr>\<rparr>"

definition applyArtisticFilter ::
  "network \<Rightarrow> int \<Rightarrow> int \<Rightarrow> string option \<Rightarrow> string \<Rightarrow> AIServiceResponse \<times> fetch_request list" where
  "applyArtisticFilter fetch t0 t1 imageBase64 filterType =
     processImage fetch t0 t1
       \<lparr>image = imageBase64, req_operation = ''artistic-filter'',
        parameters = Some \<lparr>style = Some filterType, prompt = None\<rparr>\<rparr>"

section \<open>ImageEditor: the editing session\<close>

record EditHistory =
  imageUrl :: string
  operation :: string
  timestamp :: int

text \<open>
  The status line. \<open>Idle\<close> is the empty string, \<open>Processing op\<close> is
  \<open>Processing <op>...\<close>, \<open>Completed op\<close> is the check mark followed by
  \<open><op> completed successfully!\<close> and \<open>ProcessingFailed\<close> is the cross mark followed by
  \<open>Processing failed\<close>. Three seconds after an operation a timer sets the line to
  the empty string.
\<close>

datatype status = Idle | Processing string | Completed string | ProcessingFailed

record ImageEditor =
  currentFile :: "File option"
  currentImageUrl :: string
  originalImageUrl :: string
  isProcessing :: bool
  editHistory :: "EditHistory list"
  currentHistoryIndex :: int
  processingStatus :: status

text \<open>The \<open>useState\<close> defaults.\<close>

definition initial :: ImageEditor where
  "initial =
     \<lparr>currentFile = None, currentImageUrl = [], originalImageUrl = [], isProcessing = False,
      editHistory = [], currentHistoryIndex = -1, processingStatus = Idle\<rparr>"

text \<open>
  What a handler shows or sends: the \<open>alert\<close> boxes and the calls of \<open>fetch\<close>.
  \<open>console.log\<close> and \<open>console.error\<close> calls are left out.
\<close>

datatype effect = Alert string | Fetch fetch_request

fun is_alert :: "effect \<Rightarrow> bool" where
  "is_alert (Alert m) = True"
| "is_alert (Fetch r) = False"

text \<open>The requests sent, in order.\<close>

fun fetches :: "effect list \<Rightarrow> fetch_request list" where
  "fetches [] = []"
| "fetches (Alert m # es) = fetches es"
| "fetches (Fetch r # es) = r # fetches es"

text \<open>
  \<open>handleImageUpload\<close>: \<open>url\<close> is what \<open>URL.createObjectURL(file)\<close> returns, \<open>None\<close>
  when it throws. \<open>setCurrentFile\<close> has run by then, and the \<open>catch\<close> block alerts.
\<close>

definition handleImageUpload :: "File \<Rightarrow> string option \<Rightarrow> ImageEditor \<Rightarrow> ImageEditor \<times> effect list" where
  "handleImageUpload f url s =
     (case url of
        None \<Rightarrow>
          (s\<lparr>currentFile := Some f\<rparr>, [Alert ''Failed to upload image. Please try again.''])
      | Some u \<Rightarrow>
          (s\<lparr>currentFile := Some f, currentImageUrl := u, originalImageUrl := u,
             editHistory := [], currentHistoryIndex := -1\<rparr>, []))"

text \<open>\<open>addToHistory\<close>: \<open>now\<close> is the value of \<open>Date.now()\<close>.\<close>

definition addToHistory :: "string \<Rightarrow> string \<Rightarrow> int \<Rightarrow> ImageEditor \<Rightarrow> ImageEditor" where
  "addToHistory url op now s =
     (let newEntry = \<lparr>imageUrl = url, operation = op, timestamp = now\<rparr>;
          newHistory = slice0 (editHistory s) (currentHistoryIndex s + 1) @ [newEntry]
      in s\<lparr>editHistory := newHistory, currentHistoryIndex := int (length newHistory) - 1\<rparr>)"

text \<open>
  \<open>handleUndo\<close> and \<open>handleRedo\<close> read \<open>editHistory[i].imageUrl\<close>, which throws a
  \<open>TypeError\<close> when \<open>editHistory[i]\<close> is \<open>undefined\<close>.
\<close>

definition handleUndo :: "ImageEditor \<Rightarrow> js_exn + ImageEditor" where
  "handleUndo s =
     (if currentHistoryIndex s > 0 then
        (case js_index (editHistory s) (currentHistoryIndex s - 1) of
           None \<Rightarrow> Inl (cannot_read ''undefined'' ''imageUrl'')
         | Some e \<Rightarrow>
             Inr (s\<lparr>currentHistoryIndex := currentHistoryIndex s - 1,
                    currentImageUrl := imageUrl e\<rparr>))
      else if currentHistoryIndex s = 0 then
        Inr (s\<lparr>currentHistoryIndex := -1, currentImageUrl := originalImageUrl s\<rparr>)
      else Inr s)"

definition handleRedo :: "ImageEditor \<Rightarrow> js_exn + ImageEditor" where
  "handleRedo s =
     (if currentHistoryIndex s < int (length (editHistory s)) - 1 then
        (case js_index (editHistory s) (currentHistoryIndex s + 1) of
           None \<Rightarrow> Inl (cannot_read ''undefined'' ''imageUrl'')
         | Some e \<Rightarrow>
             Inr (s\<lparr>currentHistoryIndex := currentHistoryIndex s + 1,
                    currentImageUrl := imageUrl e\<rparr>))
      else Inr s)"

definition handleReset :: "ImageEditor \<Rightarrow> ImageEditor" where
  "handleReset s =
     s\<lparr>currentImageUrl := originalImageUrl s, currentHistoryIndex := -1, editHistory := []\<rparr>"

text \<open>
  The buttons of the history card. The card is rendered only while the history is not
  empty, with one \<open>Original\<close> button and one button per entry; a click on a button that
  is not there changes nothing.
\<close>

definition jumpToOriginal :: "ImageEditor \<Rightarrow> ImageEditor" where
  "jumpToOriginal s =
     (if editHistory s = [] then s
      else s\<lparr>currentHistoryIndex := -1, currentImageUrl := originalImageUrl s\<rparr>)"

definition jumpTo :: "nat \<Rightarrow> ImageEditor \<Rightarrow> ImageEditor" where
  "jumpTo i s =
     (if i < length (editHistory s) then
        s\<lparr>currentHistoryIndex := int i, currentImageUrl := imageUrl (editHistory s ! i)\<rparr>
      else s)"

text \<open>
  What the browser and the network answer during one run of \<open>handleProcessImage\<close>:
  the file reader, the network, the two clock readings of \<open>processImage\<close> and the clock
  reading of \<open>addToHistory\<close>.
\<close>

record process_env =
  readAsDataURL :: "File \<Rightarrow> string option"
  fetch :: network
  startTime :: int
  endTime :: int
  historyTime :: int

text \<open>The \<open>switch\<close> on the operation name.\<close>

definition call_service ::
  "process_env \<Rightarrow> string \<Rightarrow> edit_parameters option \<Rightarrow> string option \<Rightarrow>
     AIServiceResponse \<times> fetch_request list" where
  "call_service env op ps base64Image =
     (if op = ''background-removal'' then
        removeBackground (fetch env) (startTime env) (endTime env) base64Image
      else if op = ''style-transfer'' then
        applyStyleTransfer (fetch env) (startTime env) (endTime env) base64Image
          (or_default (style_of ps) ''artistic'')
      else if op = ''enhance'' then
        enhanceImage (fetch env) (startTime env) (endTime env) base64Image
      else if op = ''object-removal'' then
        removeObject (fetch env) (startTime env) (endTime env) base64Image
          (or_default (prompt_of ps) [])
      else if op = ''artistic-filter'' then
        applyArtisticFilter (fetch env) (startTime env) (endTime env) base64Image
          (or_default (style_of ps) ''watercolor'')
      else
        processImage (fetch env) (startTime env) (endTime env)
          \<lparr>image = base64Image, req_operation = ''enhance'', parameters = ps\<rparr>)"

text \<open>\<open>result.data.startsWith('http')\<close>.\<close>

definition startsWith :: "string \<Rightarrow> string \<Rightarrow> bool" where
  "startsWith s p = (take (length p) s = p)"

text \<open>
  \<open>handleProcessImage\<close>. The controls are disabled while \<open>isProcessing\<close> is set, so the
  state the handler was started in is the state its updates are applied to, and
  \<open>addToHistory\<close> sees the history and the index of that state. The test
  \<open>result.success && result.data\<close> holds when the data is a string that is not empty;
  \<open>or_default (data result) []\<close> is that string. A rejected \<open>fileToBase64\<close> is caught
  by the \<open>catch\<close> block; the service methods do not throw.
\<close>

definition handleProcessImage ::
  "process_env \<Rightarrow> string \<Rightarrow> edit_parameters option \<Rightarrow> ImageEditor \<Rightarrow> ImageEditor \<times> effect list" where
  "handleProcessImage env op ps s =
     (case currentFile s of
        None \<Rightarrow> (s, [Alert ''Please upload an image first''])
      | Some f \<Rightarrow>
          if currentImageUrl s = [] then (s, [Alert ''Please upload an image first''])
          else
            (case fileToBase64 (readAsDataURL env) f of
               Inl e \<Rightarrow>
                 (s\<lparr>isProcessing := False, processingStatus := ProcessingFailed\<rparr>,
                  [Alert ''An error occurred while processing the image. Please try again.''])
             | Inr base64Image \<Rightarrow>
                 (case call_service env op ps base64Image of
                    (result, calls) \<Rightarrow>
                      if success result \<and> or_default (data result) [] \<noteq> [] then
                        (let d = or_default (data result) [];
                             newImageUrl =
                               (if startsWith d ''http'' then d
                                else ''data:image/png;base64,'' @ d)
                         in ((addToHistory newImageUrl op (historyTime env)
                               (s\<lparr>currentImageUrl := newImageUrl\<rparr>))
                               \<lparr>isProcessing := False,
                                processingStatus := Completed (replace_first CHR ''-'' CHR '' '' op)\<rparr>,
                             map Fetch calls))
                      else
                        (s\<lparr>isProcessing := False, processingStatus := ProcessingFailed\<rparr>,
                         map Fetch calls @
                         [Alert (''Failed to process image: '' @
                                 or_default (error result) ''Unknown error'')]))))"

text \<open>
  What the promise of \<open>handleProcessImage\<close> settles with, as its caller sees it:
  \<open>Inl\<close> a rejection, \<open>Inr None\<close> the value \<open>undefined\<close>, \<open>Inr (Some r)\<close> a
  result \<open>r\<close>. The guard leaves with \<open>return;\<close>, the \<open>try\<close> block has no \<open>return\<close>
  and uses the result of the service only for the updates of the session, and the
  \<open>catch\<close> block takes every exception of the \<open>try\<close> block.
\<close>

definition handleProcessImage_returns ::
  "process_env \<Rightarrow> string \<Rightarrow> edit_parameters option \<Rightarrow> ImageEditor \<Rightarrow>
     js_exn + AIServiceResponse option" where
  "handleProcessImage_returns env op ps s =
     (case currentFile s of
        None \<Rightarrow> Inr None
      | Some f \<Rightarrow>
          if currentImageUrl s = [] then Inr None
          else
            (case and_then (fileToBase64 (readAsDataURL env) f)
                    (\<lambda>base64Image. Inr (fst (call_service env op ps base64Image))) of
               Inl e \<Rightarrow> Inr None
             | Inr result \<Rightarrow> Inr None))"

section \<open>ImageUploader: the drop zone\<close>

text \<open>
  \<open>onDrop\<close> with \<open>onImageUpload\<close> bound to \<open>handleImageUpload\<close>, as \<open>ImageEditor\<close>
  renders it.
\<close>

definition onDrop :: "File list \<Rightarrow> string option \<Rightarrow> ImageEditor \<Rightarrow> ImageEditor \<times> effect list" where
  "onDrop acceptedFiles url s =
     (case acceptedFiles of
        [] \<Rightarrow> (s, [])
      | f # _ \<Rightarrow>
          (let validation = validateImageFile f in
           if valid validation then handleImageUpload f url s
           else (s, [Alert (interpolate (verror validation))])))"

section \<open>Sessions: sequences of user actions\<close>

text \<open>
  One action of the user, with what the browser and the network answer while its handler
  runs: files dropped on the uploader (and the object URL, if one is created), an
  operation chosen in the tools sidebar, the three history buttons of the header, and the
  buttons of the history card; and the timer that clears the status line. Every action is
  allowed in every session, also where the page hides or disables its control.
\<close>

datatype event =
    Drop "File list" "string option"
  | Process process_env string "edit_parameters option"
  | Undo
  | Redo
  | Reset
  | ShowOriginal
  | ShowEntry nat
  | StatusTimer

fun step :: "event \<Rightarrow> ImageEditor \<Rightarrow> js_exn + ImageEditor" where
  "step (Drop files url) s = Inr (fst (onDrop files url s))"
| "step (Process env op ps) s = Inr (fst (handleProcessImage env op ps s))"
| "step Undo s = handleUndo s"
| "step Redo s = handleRedo s"
| "step Reset s = Inr (handleReset s)"
| "step ShowOriginal s = Inr (jumpToOriginal s)"
| "step (ShowEntry i) s = Inr (jumpTo i s)"
| "step StatusTimer s = Inr (s\<lparr>processingStatus := Idle\<rparr>)"

text \<open>A handler that throws ends the run.\<close>

fun run :: "event list \<Rightarrow> ImageEditor \<Rightarrow> js_exn + ImageEditor" where
  "run [] s = Inr s"
| "run (e # es) s = and_then (step e s) (run es)"

text \<open>\<open>handleUndo\<close> applied \<open>n\<close> times.\<close>

fun undo_times :: "nat \<Rightarrow> ImageEditor \<Rightarrow> js_exn + ImageEditor" where
  "undo_times 0 s = Inr s"
| "undo_times (Suc n) s = and_then (handleUndo s) (undo_times n)"

section \<open>ExportPanel: file names and downloads\<close>

record ExportPanel =
  exportFormat :: string
  quality :: int
  customName :: string
  isExporting :: bool

text \<open>The \<open>useState\<close> defaults; \<open>quality\<close> is the one element of the slider's array.\<close>

definition export_initial :: ExportPanel where
  "export_initial = \<lparr>exportFormat = ''png'', quality = 90, customName = [], isExporting = False\<rparr>"

text \<open>\<open>s.trim()\<close>: white space and line terminators off both ends.\<close>

definition trim :: "string \<Rightarrow> string" where
  "trim s = rev (dropWhile is_space (rev (dropWhile is_space s)))"

text \<open>
  \<open>name.replace(/\.[^/.]+$/, '')\<close>: the pattern matches a dot followed, up to the end of
  the name, by one or more characters that are neither a slash nor a dot.
\<close>

definition strip_extension :: "string \<Rightarrow> string" where
  "strip_extension n =
     (let plain = (\<lambda>c. c \<noteq> CHR ''.'' \<and> c \<noteq> CHR ''/'')
      in case dropWhile plain (rev n) of
           [] \<Rightarrow> n
         | c # cs \<Rightarrow> if c = CHR ''.'' \<and> takeWhile plain (rev n) \<noteq> [] then rev cs else n)"

text \<open>
  \<open>generateFileName\<close>: \<open>isoString\<close> is what \<open>new Date().toISOString()\<close> returns, and
  \<open>originalImageName\<close> is \<open>None\<close> when the property is \<open>undefined\<close>.
\<close>

definition generateFileName :: "string \<Rightarrow> string option \<Rightarrow> string \<Rightarrow> string" where
  "generateFileName custom originalImageName isoString =
     (if trim custom \<noteq> [] then trim custom
      else
        (let baseName =
               (case originalImageName of
                  None \<Rightarrow> ''edited-image''
                | Some n \<Rightarrow> if n = [] then ''edited-image'' else strip_extension n);
             timestamp = map (\<lambda>c. if c = CHR '':'' then CHR ''-'' else c) (take 19 isoString)
         in baseName @ ''-edited-'' @ timestamp))"

text \<open>
  \<open>Date.prototype.toISOString\<close> for the years 0 to 9999, as ECMAScript defines it:
  \<open>YYYY-MM-DDTHH:mm:ss.sssZ\<close>, every field padded with zeros.
\<close>

record utc_time =
  year :: nat
  month :: nat
  day :: nat
  hours :: nat
  minutes :: nat
  seconds :: nat
  milliseconds :: nat

definition pad :: "nat \<Rightarrow> nat \<Rightarrow> string" where
  "pad w n = replicate (w - length (show_nat n)) CHR ''0'' @ show_nat n"

definition toISOString :: "utc_time \<Rightarrow> string" where
  "toISOString t =
     pad 4 (year t) @ ''-'' @ pad 2 (month t) @ ''-'' @ pad 2 (day t) @ ''T'' @
     pad 2 (hours t) @ '':'' @ pad 2 (minutes t) @ '':'' @ pad 2 (seconds t) @ ''.'' @
     pad 3 (milliseconds t) @ ''Z''"

text \<open>
  \<open>atob\<close> as the HTML standard defines it (forgiving-base64 decode): ASCII white space is
  dropped; one or two \<open>=\<close> are dropped from the end of a text whose length is a multiple
  of four; a text of length 4n+1 or with a character outside the base64 alphabet is an
  error (\<open>None\<close>: \<open>atob\<close> throws); every four characters give three bytes, two or three
  remaining characters give one or two.
\<close>

definition ascii_whitespace :: "char \<Rightarrow> bool" where
  "ascii_whitespace c = (c \<in> set [CHR 0x09, CHR 0x0A, CHR 0x0C, CHR 0x0D, CHR 0x20])"

fun b64_index :: "nat \<Rightarrow> char \<Rightarrow> string \<Rightarrow> nat option" where
  "b64_index n c [] = None"
| "b64_index n c (x # xs) = (if c = x then Some n else b64_index (n + 1) c xs)"

fun b64_bytes :: "nat list \<Rightarrow> nat list" where
  "b64_bytes (a # b # c # d # rest) =
     [a * 4 + b div 16, b mod 16 * 16 + c div 4, c mod 4 * 64 + d] @ b64_bytes rest"
| "b64_bytes [a, b, c] = [a * 4 + b div 16, b mod 16 * 16 + c div 4]"
| "b64_bytes [a, b] = [a * 4 + b div 16]"
| "b64_bytes vs = []"

definition strip_padding :: "string \<Rightarrow> string" where
  "strip_padding d =
     (if length d mod 4 = 0 then
        (case rev d of
           [] \<Rightarrow> d
         | x # r \<Rightarrow>
             if x = CHR ''='' then
               (case r of
                  [] \<Rightarrow> rev r
                | y # r' \<Rightarrow> if y = CHR ''='' then rev r' else rev r)
             else d)
      else d)"

definition atob_std :: "string \<Rightarrow> string option" where
  "atob_std text =
     (let d = strip_padding (filter (\<lambda>c. \<not> ascii_whitespace c) text)
      in if length d mod 4 = 1 then None
         else (case those (map (\<lambda>c. b64_index 0 c b64_alphabet) d) of
                 None \<Rightarrow> None
               | Some vs \<Rightarrow> Some (map char_of (b64_bytes vs))))"

text \<open>
  The calls on the off-screen canvas, and what an export does: the link that
  \<open>downloadImage\<close> clicks (bytes of the blob, content type, file name), the call of
  \<open>saveAs\<close> (bytes of the blob, file name) and the \<open>alert\<close> of \<open>handleDownload\<close>.
\<close>

datatype canvas_op = FillRect string nat nat | DrawImage string

datatype export_effect =
    Download string string string
  | SaveAs string string
  | ExportAlert string

text \<open>
  The browser during one export: \<open>atob\<close> (\<open>None\<close> when it throws), the clock, the
  natural size of the decoded image (\<open>None\<close> when \<open>onerror\<close> fires), whether the
  canvas has a 2D context, and \<open>toBlob\<close>: the bytes of the blob that \<open>canvas.toBlob\<close>
  hands to its callback for a canvas of the given size on which the given calls were
  made, asked for the given type and the given quality (\<open>None\<close> when it hands over
  \<open>null\<close>). The quality is the exact quotient.
\<close>

record export_env =
  atob :: "string \<Rightarrow> string option"
  isoNow :: string
  loadImage :: "string \<Rightarrow> (nat \<times> nat) option"
  hasContext :: bool
  toBlob :: "nat \<times> nat \<Rightarrow> canvas_op list \<Rightarrow> string \<Rightarrow> rat \<Rightarrow> string option"

text \<open>
  \<open>downloadImage\<close> with \<open>base64ToBlob\<close>: the bytes of the blob are the character codes
  of what \<open>atob\<close> returns.
\<close>

definition downloadImage ::
  "(string \<Rightarrow> string option) \<Rightarrow> string \<Rightarrow> string \<Rightarrow> string \<Rightarrow>
     export_effect list \<times> js_exn option" where
  "downloadImage decode base64Data filename format =
     (case decode base64Data of
        None \<Rightarrow> ([], Some (Error ''The string to be decoded is not correctly encoded.''))
      | Some bytes \<Rightarrow>
          ([Download bytes (''image/'' @ format) (filename @ ''.'' @ format)], None))"

text \<open>\<open>convertAndDownload\<close>: what was saved, and the error of a rejected promise.\<close>

definition convertAndDownload ::
  "export_env \<Rightarrow> string \<Rightarrow> string \<Rightarrow> string \<Rightarrow> int \<Rightarrow> export_effect list \<times> js_exn option" where
  "convertAndDownload env imageData fileName format qualityValue =
     (case loadImage env imageData of
        None \<Rightarrow> ([], Some (Error ''Failed to load image''))
      | Some (w, h) \<Rightarrow>
          if \<not> hasContext env then ([], Some (Error ''Canvas context not available''))
          else
            (let drawn =
                   (if format = ''jpg'' then [FillRect ''white'' w h] else []) @
                   [DrawImage imageData]
             in case toBlob env (w, h) drawn (''image/'' @ format) (of_int qualityValue / 100) of
                  None \<Rightarrow> ([], Some (Error ''Failed to create blob''))
                | Some blob \<Rightarrow> ([SaveAs blob (fileName @ ''.'' @ format)], None)))"

text \<open>
  \<open>handleDownload\<close>: \<open>imageData\<close> and \<open>originalImageName\<close> are the properties of the
  panel. With a comma in the data, \<open>split(',')\<close> has a second piece.
\<close>

definition handleDownload ::
  "export_env \<Rightarrow> string option \<Rightarrow> string option \<Rightarrow> ExportPanel \<Rightarrow> ExportPanel \<times> export_effect list" where
  "handleDownload env imageData originalImageName s =
     (case imageData of
        None \<Rightarrow> (s, [])
      | Some d \<Rightarrow>
          if d = [] then (s, [])
          else
            (let fileName = generateFileName (customName s) originalImageName (isoNow env);
                 outcome =
                   (if exportFormat s = ''png'' then
                      downloadImage (atob env)
                        (if CHR '','' \<in> set d
                         then (case js_index (split_on CHR '','' d) 1 of None \<Rightarrow> [] | Some b \<Rightarrow> b)
                         else d)
                        fileName ''png''
                    else convertAndDownload env d fileName (exportFormat s) (quality s))
             in case outcome of
                  (effs, None) \<Rightarrow> (s\<lparr>isExporting := False\<rparr>, effs)
                | (effs, Some e) \<Rightarrow>
                    (s\<lparr>isExporting := False\<rparr>,
                     effs @ [ExportAlert ''Failed to export image. Please try again.''])))"

text \<open>The name under which an effect saves a file.\<close>

fun saved_name :: "export_effect \<Rightarrow> string option" where
  "saved_name (Download bytes contentType name) = Some name"
| "saved_name (SaveAs bytes name) = Some name"
| "saved_name e = None"

section \<open>Reachable sessions\<close>

text \<open>
  What holds of every session a sequence of actions leads to: the index points into the
  history or is \<open>-1\<close>, and the current image is the one the index points at.
\<close>

definition consistent :: "ImageEditor \<Rightarrow> bool" where
  "consistent s =
     (- 1 \<le> currentHistoryIndex s \<and>
      currentHistoryIndex s < int (length (editHistory s)) \<and>
      currentImageUrl s =
        (if currentHistoryIndex s = - 1 then originalImageUrl s
         else imageUrl (editHistory s ! nat (currentHistoryIndex s))))"

text \<open>The file an action hands to \<open>handleImageUpload\<close>, and the last one of a sequence.\<close>

fun upload_of :: "event \<Rightarrow> File option" where
  "upload_of (Drop (f # fs) url) = (if valid (validateImageFile f) then Some f else None)"
| "upload_of e = None"

fun last_upload :: "event list \<Rightarrow> File option" where
  "last_upload [] = None"
| "last_upload (e # es) =
     (case last_upload es of Some f \<Rightarrow> Some f | None \<Rightarrow> upload_of e)"

text \<open>The request that the \<open>switch\<close> of \<open>handleProcessImage\<close> hands to \<open>processImage\<close>.\<close>

definition request_for :: "string \<Rightarrow> edit_parameters option \<Rightarrow> string option \<Rightarrow> AIImageEditRequest" where
  "request_for op ps base64Image =
     (if op = ''background-removal'' then
        \<lparr>image = base64Image, req_operation = ''background-removal'', parameters = None\<rparr>
      else if op = ''style-transfer'' then
        \<lparr>image = base64Image, req_operation = ''style-transfer'',
         parameters = Some \<lparr>style = Some (or_default (style_of ps) ''artistic''), prompt = None\<rparr>\<rparr>
      else if op = ''enhance'' then
        \<lparr>image = base64Image, req_operation = ''enhance'', parameters = None\<rparr>
      else if op = ''object-removal'' then
        \<lparr>image = base64Image, req_operation = ''object-removal'',
         parameters = Some \<lparr>style = None, prompt = Some (or_default (prompt_of ps) [])\<rparr>\<rparr>
      else if op = ''artistic-filter'' then
        \<lparr>image = base64Image, req_operation = ''artistic-filter'',
         parameters = Some \<lparr>style = Some (or_default (style_of ps) ''watercolor''), prompt = None\<rparr>\<rparr>
      else \<lparr>image = base64Image, req_operation = ''enhance'', parameters = ps\<rparr>)"

text \<open>The failure modes of a remote call.\<close>

definition network_failure :: "js_exn + response \<Rightarrow> bool" where
  "network_failure x = (case x of Inl e \<Rightarrow> True | Inr r \<Rightarrow> False)"

definition http_failure :: "js_exn + response \<Rightarrow> bool" where
  "http_failure x = (case x of Inl e \<Rightarrow> False | Inr r \<Rightarrow> \<not> ok r)"

definition parsing_failure :: "js_exn + response \<Rightarrow> bool" where
  "parsing_failure x =
     (case x of
        Inl e \<Rightarrow> False
      | Inr r \<Rightarrow>
          ok r \<and>
          (case json_body r of Inl e \<Rightarrow> True | Inr j \<Rightarrow> isl (extractImageFromResponse j)))"

section \<open>A sample session\<close>

definition photo :: File where
  "photo = \<lparr>fname = ''photo.jpg'', ftype = ''image/jpeg'', fsize = 3, content = ''ABC''\<rparr>"

definition anime :: "edit_parameters option" where
  "anime = Some \<lparr>style = Some ''anime'', prompt = None\<rparr>"

definition reply :: response where
  "reply =
     \<lparr>status = 200, statusText = ''OK'',
      json_body =
        Inr (JObj [(''choices'',
               JArr [JObj [(''message'',
                 JObj [(''content'', JStr ''See https://cdn.test/a.png now'')])]])])\<rparr>"

definition outage :: response where
  "outage =
     \<lparr>status = 500, statusText = ''Internal Server Error'', json_body = Inr JNull\<rparr>"

definition studio :: process_env where
  "studio =
     \<lparr>readAsDataURL = (\<lambda>f. Some (dataURL f)),
      fetch = (\<lambda>req. Inr reply),
      startTime = 100, endTime = 250, historyTime = 300\<rparr>"

definition offline :: process_env where
  "offline = studio\<lparr>fetch := (\<lambda>req. Inr outage)\<rparr>"

definition uploaded :: ImageEditor where
  "uploaded = initial\<lparr>currentFile := Some photo, currentImageUrl := ''blob:1'',
     originalImageUrl := ''blob:1''\<rparr>"

definition styled :: ImageEditor where
  "styled = uploaded\<lparr>currentImageUrl := ''https://cdn.test/a.png'',
     editHistory := [\<lparr>imageUrl = ''https://cdn.test/a.png'', operation = ''style-transfer'',
                      timestamp = 300\<rparr>],
     currentHistoryIndex := 0, processingStatus := Completed ''style transfer''\<rparr>"

definition reverted :: ImageEditor where
  "reverted = styled\<lparr>currentHistoryIndex := - 1, currentImageUrl := ''blob:1''\<rparr>"

definition sent :: "string \<Rightarrow> edit_parameters option \<Rightarrow> fetch_request" where
  "sent op ps = build_request \<lparr>image = Some ''QUJD'', req_operation = op, parameters = ps\<rparr>"

text \<open>Files at and beyond the limits of the validation.\<close>

definition huge :: File where
  "huge =
     \<lparr>fname = ''huge.png'', ftype = ''image/png'', fsize = 10485761,
      content = replicate 10485761 CHR 0x00\<rparr>"

definition report :: File where
  "report =
     \<lparr>fname = ''report.pdf'', ftype = ''application/pdf'', fsize = 1024,
      content = replicate 1024 CHR 0x00\<rparr>"

text \<open>
  A browser with the standard \<open>atob\<close> that loads every image at 640 by 480 and whose
  encoder delivers four bytes.
\<close>

definition browser :: export_env where
  "browser =
     \<lparr>atob = atob_std,
      isoNow = ''2026-11-02T19:08:05.007Z'',
      loadImage = (\<lambda>src. Some (640, 480)),
      hasContext = True,
      toBlob = (\<lambda>size drawn type q. Some ''JFIF'')\<rparr>"

definition evening :: utc_time where
  "evening =
     \<lparr>year = 2026, month = 11, day = 2, hours = 19, minutes = 8, seconds = 5,
      milliseconds = 7\<rparr>"

text \<open>A network without connection, and one that answers with the JSON text \<open>null\<close>.\<close>

definition unplugged :: network where
  "unplugged = (\<lambda>req. Inl (TypeError ''Failed to fetch''))"

definition garbled :: network where
  "garbled = (\<lambda>req. Inr \<lparr>status = 200, statusText = ''OK'', json_body = Inr JNull\<rparr>)"

section \<open>Every reachable session is consistent\<close>

lemma slice0_take: "- 1 \<le> i \<Longrightarrow> slice0 xs (i + 1) = take (nat (i + 1)) xs"
  by (auto simp: slice0_def Let_def min_def)

lemma consistent_initial: "consistent initial"
  by (simp add: consistent_def initial_def)

lemma consistent_addToHistory:
  "- 1 \<le> currentHistoryIndex s \<Longrightarrow> consistent (addToHistory u op t (s\<lparr>currentImageUrl := u\<rparr>))"
  by (simp add: consistent_def addToHistory_def Let_def slice0_take nth_append)

lemma consistent_upload: "consistent s \<Longrightarrow> consistent (fst (handleImageUpload f url s))"
  by (cases url) (simp_all add: consistent_def handleImageUpload_def)

lemma consistent_onDrop: "consistent s \<Longrightarrow> consistent (fst (onDrop fs url s))"
  by (cases fs) (simp_all add: onDrop_def Let_def consistent_upload)

lemma consistent_fields:
  "consistent s \<Longrightarrow> consistent (s\<lparr>isProcessing := b, processingStatus := st\<rparr>)"
  by (simp add: consistent_def)

text \<open>
  The two ways \<open>handleProcessImage\<close> ends: with an alert and the session as it was (up to
  the status line), or without one and the result appended to the history.
\<close>

lemma handleProcessImage_cases:
  assumes "handleProcessImage env op ps s = (s', effs)"
  shows "(list_ex is_alert effs \<and>
            (s' = s \<or> s' = s\<lparr>isProcessing := False, processingStatus := ProcessingFailed\<rparr>)) \<or>
         (\<not> list_ex is_alert effs \<and>
            (\<exists>u. u \<noteq> [] \<and>
               s' = (addToHistory u op (historyTime env) (s\<lparr>currentImageUrl := u\<rparr>))
                      \<lparr>isProcessing := False,
                       processingStatus := Completed (replace_first CHR ''-'' CHR '' '' op)\<rparr>))"
proof -
  have m: "\<And>cs. \<not> list_ex is_alert (map Fetch cs)"
    by (simp add: list_ex_iff)
  from assms show ?thesis
    unfolding handleProcessImage_def
    by (auto simp: m Let_def startsWith_def split: option.splits sum.splits prod.splits if_splits)
qed

lemma consistent_process: "consistent s \<Longrightarrow> consistent (fst (handleProcessImage env op ps s))"
proof -
  assume c: "consistent s"
  obtain s' effs where h: "handleProcessImage env op ps s = (s', effs)"
    by (cases "handleProcessImage env op ps s")
  from c have i: "- 1 \<le> currentHistoryIndex s"
    by (simp add: consistent_def)
  from handleProcessImage_cases [OF h] c consistent_addToHistory [OF i]
  have "consistent s'"
    by (auto simp: consistent_fields)
  with h show ?thesis by simp
qed

lemma handleUndo_consistent: "consistent s \<Longrightarrow> \<exists>s'. handleUndo s = Inr s' \<and> consistent s'"
  by (auto simp: consistent_def handleUndo_def js_index_def nat_diff_distrib)

lemma handleRedo_consistent: "consistent s \<Longrightarrow> \<exists>s'. handleRedo s = Inr s' \<and> consistent s'"
  by (auto simp: consistent_def handleRedo_def js_index_def nat_add_distrib)

lemma consistent_reset: "consistent (handleReset s)"
  by (simp add: consistent_def handleReset_def)

lemma consistent_jumpToOriginal: "consistent s \<Longrightarrow> consistent (jumpToOriginal s)"
  by (auto simp: consistent_def jumpToOriginal_def)

lemma consistent_jumpTo: "consistent s \<Longrightarrow> consistent (jumpTo i s)"
  by (auto simp: consistent_def jumpTo_def)

text \<open>No handler throws in a consistent session, and the next session is consistent.\<close>

lemma consistent_status: "consistent s \<Longrightarrow> consistent (s\<lparr>processingStatus := st\<rparr>)"
  by (simp add: consistent_def)

lemma step_consistent: "consistent s \<Longrightarrow> \<exists>s'. step e s = Inr s' \<and> consistent s'"
  by (cases e)
     (simp_all add: consistent_onDrop consistent_process handleUndo_consistent
        handleRedo_consistent consistent_reset consistent_jumpToOriginal consistent_jumpTo
        consistent_status)

lemma run_consistent: "consistent s \<Longrightarrow> \<exists>s'. run es s = Inr s' \<and> consistent s'"
proof (induction es arbitrary: s)
  case Nil
  then show ?case by simp
next
  case (Cons e es)
  from step_consistent [OF Cons.prems] obtain s1 where "step e s = Inr s1" "consistent s1"
    by blast
  with Cons.IH [of s1] show ?case
    by (simp add: and_then_def)
qed

lemma run_total: "\<exists>s. run es initial = Inr s"
  using run_consistent [OF consistent_initial, of es] by blast

lemma reachable_consistent: "run es initial = Inr s \<Longrightarrow> consistent s"
  using run_consistent [OF consistent_initial, of es] by auto

lemma undo_times_reaches_original:
  "consistent s \<Longrightarrow> n = nat (currentHistoryIndex s + 1) \<Longrightarrow>
     \<exists>s0. undo_times n s = Inr s0 \<and> currentHistoryIndex s0 = - 1 \<and>
          currentImageUrl s0 = originalImageUrl s \<and> handleUndo s0 = Inr s0"
proof (induction n arbitrary: s)
  case 0
  then have "currentHistoryIndex s = - 1"
    by (simp add: consistent_def)
  with 0 show ?case
    by (simp add: consistent_def handleUndo_def)
next
  case (Suc n)
  from Suc.prems have i: "0 \<le> currentHistoryIndex s" by simp
  from handleUndo_consistent [OF Suc.prems(1)] obtain s1
    where u: "handleUndo s = Inr s1" and c1: "consistent s1" by blast
  from u i Suc.prems(1) have i1: "currentHistoryIndex s1 = currentHistoryIndex s - 1"
    and o1: "originalImageUrl s1 = originalImageUrl s"
    by (auto simp: handleUndo_def consistent_def js_index_def split: if_splits)
  from i1 Suc.prems(2) have "n = nat (currentHistoryIndex s1 + 1)" by simp
  from Suc.IH [OF c1 this] u o1 show ?case
    by (simp add: and_then_def)
qed

section \<open>The sample session, evaluated\<close>

lemma sample_valid: "validateImageFile photo = \<lparr>valid = True, verror = None\<rparr>"
  by (simp add: validateImageFile_def photo_def allowedTypes_def maxSize_def)

lemma sample_upload: "run [Drop [photo] (Some ''blob:1'')] initial = Inr uploaded"
  by (simp add: and_then_def onDrop_def sample_valid handleImageUpload_def uploaded_def
      initial_def)

lemma sample_url: "url_match ''See https://cdn.test/a.png now'' = Some ''https://cdn.test/a.png''"
  by code_simp

lemma sample_base64: "fileToBase64 (readAsDataURL studio) photo = Inr (Some ''QUJD'')"
  by (simp add: fileToBase64_def studio_def js_index_def dataURL_def photo_def b64_char_def
      b64_alphabet_def Let_def)

lemma sample_ok: "processImage_try (fetch studio) req = Inr ''https://cdn.test/a.png''"
  by (simp add: processImage_try_def studio_def and_then_def ok_def reply_def
      extractImageFromResponse_def sample_url del: url_match.simps)

lemma sample_down:
  "processImage_try (fetch offline) req =
     Inl (Error ''AI service error: 500 Internal Server Error'')"
  by (simp add: processImage_try_def offline_def and_then_def ok_def outage_def
      show_nat.simps digit_def)

lemma sample_times:
  "historyTime studio = 300" "historyTime offline = 300"
  "readAsDataURL offline = readAsDataURL studio"
  by (simp_all add: studio_def offline_def)

lemma sample_styled:
  "handleProcessImage studio ''style-transfer'' anime uploaded =
     (styled, [Fetch (sent ''style-transfer'' anime)])"
  by (simp add: handleProcessImage_def uploaded_def initial_def sample_base64 call_service_def
      applyStyleTransfer_def processImage_def sample_ok Let_def anime_def style_of_def
      or_default_def startsWith_def addToHistory_def slice0_def sample_times styled_def
      sent_def)

lemma sample_session:
  "run [Drop [photo] (Some ''blob:1''), Process studio ''style-transfer'' anime] initial =
     Inr styled"
  using sample_upload by (simp add: and_then_def sample_styled split: sum.splits)

lemma sample_undo: "handleUndo styled = Inr reverted"
  by (simp add: handleUndo_def styled_def uploaded_def initial_def reverted_def)

lemma sample_redo: "handleRedo reverted = Inr styled"
  by (simp add: handleRedo_def styled_def uploaded_def initial_def reverted_def js_index_def)


section \<open>The edit history\<close>

text \<open>
  Claim C4. Appending to the history keeps the entries up to the current index, drops
  every entry after it, puts the new entry last and points the index at it. This is what
  a successful operation (one that ends without an alert) does to the history, so that
  nothing is left to redo after it.
\<close>

theorem addToHistory_truncates_redo_future:
  assumes "- 1 \<le> currentHistoryIndex s"
  shows "editHistory (addToHistory url op now s) =
           take (nat (currentHistoryIndex s + 1)) (editHistory s) @
             [\<lparr>imageUrl = url, operation = op, timestamp = now\<rparr>] \<and>
         currentHistoryIndex (addToHistory url op now s) =
           int (length (editHistory (addToHistory url op now s))) - 1 \<and>
         (\<forall>env ps s' effs.
            handleProcessImage env op ps s = (s', effs) \<and> \<not> list_ex is_alert effs \<longrightarrow>
              editHistory s' =
                take (nat (currentHistoryIndex s + 1)) (editHistory s) @
                  [\<lparr>imageUrl = currentImageUrl s', operation = op,
                    timestamp = historyTime env\<rparr>] \<and>
              currentHistoryIndex s' = int (length (editHistory s')) - 1 \<and>
              handleRedo s' = Inr s')"
proof -
  have a: "editHistory (addToHistory url op now s) =
             take (nat (currentHistoryIndex s + 1)) (editHistory s) @
               [\<lparr>imageUrl = url, operation = op, timestamp = now\<rparr>]"
    by (simp add: addToHistory_def Let_def slice0_take [OF assms])
  have b: "currentHistoryIndex (addToHistory url op now s) =
             int (length (editHistory (addToHistory url op now s))) - 1"
    by (simp add: addToHistory_def Let_def)
  have c: "editHistory s' =
             take (nat (currentHistoryIndex s + 1)) (editHistory s) @
               [\<lparr>imageUrl = currentImageUrl s', operation = op, timestamp = historyTime env\<rparr>] \<and>
           currentHistoryIndex s' = int (length (editHistory s')) - 1 \<and>
           handleRedo s' = Inr s'"
    if h: "handleProcessImage env op ps s = (s', effs)" and n: "\<not> list_ex is_alert effs"
    for env ps s' effs
  proof -
    from handleProcessImage_cases [OF h] n obtain u where
      "s' = (addToHistory u op (historyTime env) (s\<lparr>currentImageUrl := u\<rparr>))
              \<lparr>isProcessing := False,
               processingStatus := Completed (replace_first CHR ''-'' CHR '' '' op)\<rparr>"
      by blast
    then show ?thesis
      by (simp add: addToHistory_def Let_def slice0_take [OF assms] handleRedo_def)
  qed
  from a b c show ?thesis by blast
qed

theorem addToHistory_truncates_redo_future_witness:
  "- 1 \<le> currentHistoryIndex reverted \<and>
   editHistory reverted =
     [\<lparr>imageUrl = ''https://cdn.test/a.png'', operation = ''style-transfer'',
       timestamp = 300\<rparr>] \<and>
   editHistory (addToHistory ''https://cdn.test/b.png'' ''enhance'' 400 reverted) =
     [\<lparr>imageUrl = ''https://cdn.test/b.png'', operation = ''enhance'', timestamp = 400\<rparr>] \<and>
   currentHistoryIndex (addToHistory ''https://cdn.test/b.png'' ''enhance'' 400 reverted) = 0"
proof -
  have i: "- 1 \<le> currentHistoryIndex reverted"
    by (simp add: reverted_def)
  have h: "editHistory reverted =
     [\<lparr>imageUrl = ''https://cdn.test/a.png'', operation = ''style-transfer'',
       timestamp = 300\<rparr>]"
    by (simp add: reverted_def styled_def)
  from addToHistory_truncates_redo_future
         [OF i, of "''https://cdn.test/b.png''" "''enhance''" 400]
  have "editHistory (addToHistory ''https://cdn.test/b.png'' ''enhance'' 400 reverted) =
          take (nat (currentHistoryIndex reverted + 1)) (editHistory reverted) @
            [\<lparr>imageUrl = ''https://cdn.test/b.png'', operation = ''enhance'',
              timestamp = 400\<rparr>]"
    and "currentHistoryIndex (addToHistory ''https://cdn.test/b.png'' ''enhance'' 400 reverted) =
          int (length (editHistory
            (addToHistory ''https://cdn.test/b.png'' ''enhance'' 400 reverted))) - 1"
    by blast+
  with i h show ?thesis
    by (simp add: reverted_def)
qed

text \<open>
  Claim C5. In a session reached by any sequence of actions, undoing right after a
  successful operation (one that ends without an alert) shows the image that was current
  before the operation and restores the index: the image of the entry before the new one,
  or the original image when the new entry is the first. Undoing once per remaining step ends at index \<open>-1\<close> with the
  original image, where a further undo changes nothing.
\<close>

theorem undo_after_operation_restores_previous:
  assumes r: "run evs initial = Inr s"
    and h: "handleProcessImage env op ps s = (s', effs)"
    and ok: "\<not> list_ex is_alert effs"
  shows "\<exists>s1 s0.
           handleUndo s' = Inr s1 \<and>
           currentImageUrl s1 = currentImageUrl s \<and>
           currentHistoryIndex s1 = currentHistoryIndex s \<and>
           currentImageUrl s1 =
             (if currentHistoryIndex s' = 0 then originalImageUrl s'
              else imageUrl (editHistory s' ! nat (currentHistoryIndex s' - 1))) \<and>
           undo_times (nat (currentHistoryIndex s' + 1)) s' = Inr s0 \<and>
           currentHistoryIndex s0 = - 1 \<and>
           currentImageUrl s0 = originalImageUrl s \<and>
           handleUndo s0 = Inr s0"
proof -
  from reachable_consistent [OF r] have c: "consistent s" .
  from consistent_process [OF c, of env op ps] h have c': "consistent s'" by simp
  from handleProcessImage_cases [OF h] ok obtain u where
    s': "s' = (addToHistory u op (historyTime env) (s\<lparr>currentImageUrl := u\<rparr>))
                \<lparr>isProcessing := False,
                 processingStatus := Completed (replace_first CHR ''-'' CHR '' '' op)\<rparr>"
    by blast
  from c have i: "- 1 \<le> currentHistoryIndex s"
    by (simp add: consistent_def)
  have idx: "currentHistoryIndex s' = currentHistoryIndex s + 1"
    using c by (auto simp: s' addToHistory_def Let_def slice0_take [OF i] consistent_def min_def)
  have orig: "originalImageUrl s' = originalImageUrl s"
    by (simp add: s' addToHistory_def Let_def)
  have hist: "editHistory s' =
      take (nat (currentHistoryIndex s + 1)) (editHistory s) @
        [\<lparr>imageUrl = u, operation = op, timestamp = historyTime env\<rparr>]"
    by (simp add: s' addToHistory_def Let_def slice0_take [OF i])
  obtain s1 where u1: "handleUndo s' = Inr s1"
    using handleUndo_consistent [OF c'] by blast
  have a: "currentHistoryIndex s1 = currentHistoryIndex s"
    using u1 idx i by (auto simp: handleUndo_def js_index_def split: if_splits)
  have b: "currentImageUrl s1 =
             (if currentHistoryIndex s' = 0 then originalImageUrl s'
              else imageUrl (editHistory s' ! nat (currentHistoryIndex s' - 1)))"
    using u1 idx i c' by (auto simp: handleUndo_def js_index_def consistent_def split: if_splits)
  have d: "currentImageUrl s1 = currentImageUrl s"
  proof (cases "currentHistoryIndex s = - 1")
    case True
    with b idx orig c show ?thesis
      by (simp add: consistent_def)
  next
    case False
    with i c have "0 \<le> currentHistoryIndex s"
      and "nat (currentHistoryIndex s) < length (editHistory s)"
      by (auto simp: consistent_def)
    with b idx hist False c show ?thesis
      by (simp add: consistent_def nth_append nat_add_distrib)
  qed
  from undo_times_reaches_original [OF c' refl] orig obtain s0 where
    "undo_times (nat (currentHistoryIndex s' + 1)) s' = Inr s0"
    "currentHistoryIndex s0 = - 1" "currentImageUrl s0 = originalImageUrl s"
    "handleUndo s0 = Inr s0"
    by auto
  with u1 a b d show ?thesis by blast
qed

theorem undo_after_operation_restores_previous_witness:
  "run [Drop [photo] (Some ''blob:1'')] initial = Inr uploaded \<and>
   handleProcessImage studio ''style-transfer'' anime uploaded =
     (styled, [Fetch (sent ''style-transfer'' anime)]) \<and>
   \<not> list_ex is_alert [Fetch (sent ''style-transfer'' anime)] \<and>
   currentImageUrl uploaded = ''blob:1'' \<and>
   currentImageUrl styled = ''https://cdn.test/a.png'' \<and>
   (\<exists>s1 s0.
      handleUndo styled = Inr s1 \<and> currentImageUrl s1 = ''blob:1'' \<and>
      currentHistoryIndex s1 = - 1 \<and>
      undo_times 1 styled = Inr s0 \<and> currentHistoryIndex s0 = - 1 \<and>
      currentImageUrl s0 = ''blob:1'' \<and> handleUndo s0 = Inr s0)"
proof -
  have n: "\<not> list_ex is_alert [Fetch (sent ''style-transfer'' anime)]"
    by simp
  have f: "currentImageUrl uploaded = ''blob:1''" "currentHistoryIndex uploaded = - 1"
    "originalImageUrl uploaded = ''blob:1''" "currentHistoryIndex styled = 0"
    "currentImageUrl styled = ''https://cdn.test/a.png''"
    by (simp_all add: uploaded_def initial_def styled_def)
  from undo_after_operation_restores_previous [OF sample_upload sample_styled n] f
  show ?thesis
    using sample_upload sample_styled by auto
qed

text \<open>
  Claim C6. In a session reached by any sequence of actions with the index at an entry,
  undo followed by redo gives back the session as it was, index and current image
  included; and redo changes nothing when the index is at the last entry.
\<close>

theorem redo_inverts_undo:
  assumes "run evs initial = Inr s"
  shows "(0 \<le> currentHistoryIndex s \<longrightarrow>
            (\<exists>s1. handleUndo s = Inr s1 \<and> handleRedo s1 = Inr s \<and>
                  currentHistoryIndex s1 = currentHistoryIndex s - 1)) \<and>
         (currentHistoryIndex s = int (length (editHistory s)) - 1 \<longrightarrow> handleRedo s = Inr s)"
proof -
  from reachable_consistent [OF assms] have "consistent s" .
  then show ?thesis
    by (auto simp: consistent_def handleUndo_def handleRedo_def js_index_def nat_diff_distrib)
qed

theorem redo_inverts_undo_witness:
  "run [Drop [photo] (Some ''blob:1''), Process studio ''style-transfer'' anime] initial =
     Inr styled \<and>
   0 \<le> currentHistoryIndex styled \<and>
   currentHistoryIndex styled = int (length (editHistory styled)) - 1 \<and>
   handleUndo styled = Inr reverted \<and> handleRedo reverted = Inr styled \<and>
   handleRedo styled = Inr styled"
proof -
  have f: "currentHistoryIndex styled = 0" "length (editHistory styled) = 1"
    by (simp_all add: styled_def)
  from redo_inverts_undo [OF sample_session] f sample_undo sample_redo sample_session
  show ?thesis by simp
qed

text \<open>
  Claim C7. Whatever the session, reset shows the original image, empties the history
  and sets the index to \<open>-1\<close>; the original image itself is kept.
\<close>

theorem handleReset_restores_original:
  "currentImageUrl (handleReset s) = originalImageUrl (handleReset s) \<and>
   originalImageUrl (handleReset s) = originalImageUrl s \<and>
   editHistory (handleReset s) = [] \<and>
   currentHistoryIndex (handleReset s) = - 1"
  by (simp add: handleReset_def)


section \<open>The remote processing client\<close>

lemma processImage_calls: "snd (processImage net t0 t1 request) = [build_request request]"
  by (simp add: processImage_def Let_def)

lemma processImage_result:
  "fst (processImage net t0 t1 request) =
     (case processImage_try net (build_request request) of
        Inr u \<Rightarrow>
          \<lparr>success = True, data = Some u, error = None, processingTime = t1 - t0\<rparr>
      | Inl e \<Rightarrow>
          \<lparr>success = False, data = None, error = Some (message_of e),
           processingTime = t1 - t0\<rparr>)"
  by (simp add: processImage_def Let_def)

text \<open>Each failure mode makes the \<open>try\<close> block throw.\<close>

lemma failure_throws:
  assumes "network_failure (net req) \<or> http_failure (net req) \<or> parsing_failure (net req)"
  shows "\<exists>e. processImage_try net req = Inl e"
  using assms
  by (auto simp: network_failure_def http_failure_def parsing_failure_def processImage_try_def
        and_then_def isl_def split: sum.splits)

text \<open>Every branch of the \<open>switch\<close> calls \<open>processImage\<close> once, with the image it was given.\<close>

lemma call_service_request:
  "call_service env op ps b =
     processImage (fetch env) (startTime env) (endTime env) (request_for op ps b)"
  unfolding call_service_def request_for_def removeBackground_def applyStyleTransfer_def
    enhanceImage_def removeObject_def applyArtisticFilter_def
  by (simp only: if_distrib [of "processImage (fetch env) (startTime env) (endTime env)"])

lemma image_request_for: "image (request_for op ps b) = b"
  unfolding request_for_def
  by (simp only: if_distrib [of image] AIImageEditRequest.simps if_cancel)

lemma call_service_calls:
  "call_service env op ps b = (result, calls) \<Longrightarrow>
     calls = [build_request (request_for op ps b)] \<and>
     result = fst (processImage (fetch env) (startTime env) (endTime env) (request_for op ps b))"
  by (simp add: call_service_request processImage_def Let_def)

lemma image_url_build_request:
  "image_url (body (build_request request)) =
     ''data:image/jpeg;base64,'' @ interpolate (image request)"
  by (simp add: build_request_def)

text \<open>
  Claim C3. When the network call is rejected, when the response has a status outside
  200 to 299, and when the body cannot be parsed or the image cannot be extracted from
  it, \<open>processImage\<close> returns a result with \<open>success\<close> false, no data and an error
  message, after exactly one call of \<open>fetch\<close>. The message is the one of the rejection,
  or \<open>AI service error:\<close> followed by the status and its text.
\<close>

theorem processImage_failure_modes:
  assumes "network_failure (net (build_request request)) \<or>
           http_failure (net (build_request request)) \<or>
           parsing_failure (net (build_request request))"
  shows "success (fst (processImage net t0 t1 request)) = False \<and>
         data (fst (processImage net t0 t1 request)) = None \<and>
         (\<exists>m. error (fst (processImage net t0 t1 request)) = Some m) \<and>
         snd (processImage net t0 t1 request) = [build_request request] \<and>
         (\<forall>e. net (build_request request) = Inl e \<longrightarrow>
            error (fst (processImage net t0 t1 request)) = Some (message_of e)) \<and>
         (\<forall>r. net (build_request request) = Inr r \<and> \<not> ok r \<longrightarrow>
            error (fst (processImage net t0 t1 request)) =
              Some (''AI service error: '' @ show_nat (status r) @ '' '' @ statusText r))"
proof -
  from failure_throws [of net "build_request request", OF assms] obtain e
    where "processImage_try net (build_request request) = Inl e" by blast
  then have a: "success (fst (processImage net t0 t1 request)) = False"
    and b: "data (fst (processImage net t0 t1 request)) = None"
    and c: "\<exists>m. error (fst (processImage net t0 t1 request)) = Some m"
    by (simp_all add: processImage_result)
  have d: "error (fst (processImage net t0 t1 request)) = Some (message_of x)"
    if "net (build_request request) = Inl x" for x
    using that by (simp add: processImage_result processImage_try_def and_then_def)
  have f: "error (fst (processImage net t0 t1 request)) =
             Some (''AI service error: '' @ show_nat (status r) @ '' '' @ statusText r)"
    if "net (build_request request) = Inr r \<and> \<not> ok r" for r
    using that by (simp add: processImage_result processImage_try_def and_then_def)
  from a b c d f processImage_calls [of net t0 t1 request] show ?thesis
    by blast
qed

lemma show_500: "show_nat 500 = ''500''"
  by (simp add: show_nat.simps digit_def)

theorem processImage_failure_modes_witness:
  "http_failure (fetch offline (sent ''enhance'' None)) \<and>
   fst (processImage (fetch offline) 100 250
          \<lparr>image = Some ''QUJD'', req_operation = ''enhance'', parameters = None\<rparr>) =
     \<lparr>success = False, data = None,
      error = Some ''AI service error: 500 Internal Server Error'', processingTime = 150\<rparr> \<and>
   snd (processImage (fetch offline) 100 250
          \<lparr>image = Some ''QUJD'', req_operation = ''enhance'', parameters = None\<rparr>) =
     [sent ''enhance'' None] \<and>
   network_failure (unplugged (sent ''enhance'' None)) \<and>
   success (fst (processImage unplugged 100 250
          \<lparr>image = Some ''QUJD'', req_operation = ''enhance'', parameters = None\<rparr>)) = False \<and>
   error (fst (processImage unplugged 100 250
          \<lparr>image = Some ''QUJD'', req_operation = ''enhance'', parameters = None\<rparr>)) =
     Some ''Failed to fetch'' \<and>
   parsing_failure (garbled (sent ''enhance'' None)) \<and>
   success (fst (processImage garbled 100 250
          \<lparr>image = Some ''QUJD'', req_operation = ''enhance'', parameters = None\<rparr>)) = False \<and>
   error (fst (processImage garbled 100 250
          \<lparr>image = Some ''QUJD'', req_operation = ''enhance'', parameters = None\<rparr>)) =
     Some ''Cannot read properties of null (reading 'choices')''"
proof -
  let ?request = "\<lparr>image = Some ''QUJD'', req_operation = ''enhance'', parameters = None\<rparr>"
  have q: "build_request ?request = sent ''enhance'' None"
    by (simp add: sent_def)
  have h: "http_failure (fetch offline (sent ''enhance'' None))"
    and o: "fetch offline (sent ''enhance'' None) = Inr outage" "\<not> ok outage"
    by (simp_all add: http_failure_def offline_def ok_def outage_def)
  have n: "network_failure (unplugged (sent ''enhance'' None))"
    and u: "unplugged (sent ''enhance'' None) = Inl (TypeError ''Failed to fetch'')"
    by (simp_all add: network_failure_def unplugged_def)
  have p: "parsing_failure (garbled (sent ''enhance'' None))"
    by (simp add: parsing_failure_def garbled_def ok_def extractImageFromResponse_def
        and_then_def)
  have g: "error (fst (processImage garbled 100 250 ?request)) =
             Some ''Cannot read properties of null (reading 'choices')''"
    by (simp add: processImage_result processImage_try_def garbled_def ok_def
        extractImageFromResponse_def and_then_def cannot_read_def)
  from processImage_failure_modes [of "fetch offline" ?request 100 250]
       processImage_failure_modes [of unplugged ?request 100 250]
       processImage_failure_modes [of garbled ?request 100 250]
       q h o n u p g
  show ?thesis
    by (simp add: processImage_result sample_down show_500 outage_def)
qed


section \<open>What the file reader hands to the service\<close>

lemma b64_char_no_comma: "n < 64 \<Longrightarrow> CHR '','' \<noteq> b64_char n"
proof -
  assume "n < 64"
  then have "b64_char n \<in> set b64_alphabet"
    unfolding b64_char_def by (intro nth_mem) (simp add: b64_alphabet_def)
  then show ?thesis
    by (auto simp: b64_alphabet_def)
qed

lemma b64_bounds:
  fixes x y z :: nat
  assumes "x < 256" "y < 256" "z < 256"
  shows "x div 4 < 64" "x mod 4 * 16 < 64" "x mod 4 * 16 + y div 16 < 64"
    "y mod 16 * 4 < 64" "y mod 16 * 4 + z div 64 < 64" "z mod 64 < 64"
  using assms by (simp_all add: less_mult_imp_div_less)

lemma base64_no_comma: "CHR '','' \<notin> set (base64 bs)"
proof (induction bs rule: base64.induct)
  case 1
  show ?case by simp
next
  case (2 a)
  show ?case
    using b64_bounds [of "of_char a" 0 0]
    by (simp add: Let_def b64_char_no_comma)
next
  case (3 a b)
  show ?case
    using b64_bounds [of "of_char a" "of_char b" 0] b64_bounds(4) [of 0 "of_char b" 0]
    by (simp add: Let_def b64_char_no_comma)
next
  case (4 a b c rest)
  then show ?case
    using b64_bounds [of "of_char a" "of_char b" "of_char c"]
      b64_bounds(5,6) [of 0 "of_char b" "of_char c"]
    by (simp add: Let_def b64_char_no_comma)
qed

text \<open>The test vectors of RFC 4648.\<close>

lemma base64_vectors:
  "base64 [] = []" "base64 ''f'' = ''Zg==''" "base64 ''fo'' = ''Zm8=''"
  "base64 ''foo'' = ''Zm9v''" "base64 ''foob'' = ''Zm9vYg==''"
  "base64 ''fooba'' = ''Zm9vYmE=''" "base64 ''foobar'' = ''Zm9vYmFy''"
  by (simp_all add: b64_char_def b64_alphabet_def Let_def)

lemma b64_index_nth:
  "distinct xs \<Longrightarrow> n < length xs \<Longrightarrow> b64_index k (xs ! n) xs = Some (k + n)"
proof (induction xs arbitrary: n k)
  case Nil
  then show ?case by simp
next
  case (Cons x xs)
  show ?case
  proof (cases n)
    case 0
    then show ?thesis by simp
  next
    case (Suc m)
    with Cons.prems have "m < length xs" "xs ! m \<noteq> x" "distinct xs"
      by auto
    with Cons.IH [of m "k + 1"] Suc show ?thesis by simp
  qed
qed

lemma b64_alphabet_distinct: "distinct b64_alphabet" "length b64_alphabet = 64"
  by (simp_all add: b64_alphabet_def)

lemma b64_index_char: "n < 64 \<Longrightarrow> b64_index 0 (b64_char n) b64_alphabet = Some n"
  using b64_index_nth [of b64_alphabet n 0] by (simp add: b64_alphabet_distinct b64_char_def)

lemma b64_char_plain: "n < 64 \<Longrightarrow> \<not> ascii_whitespace (b64_char n) \<and> b64_char n \<noteq> CHR ''=''"
proof -
  assume "n < 64"
  then have "b64_char n \<in> set b64_alphabet"
    unfolding b64_char_def by (intro nth_mem) (simp add: b64_alphabet_def)
  then show ?thesis
    by (auto simp: b64_alphabet_def ascii_whitespace_def)
qed

lemma sextets_bound: "\<forall>v \<in> set (sextets bs). v < 64"
proof (induction bs rule: sextets.induct)
  case 1
  show ?case by simp
next
  case (2 a)
  show ?case
    using b64_bounds [of "of_char a" 0 0] by (simp add: Let_def)
next
  case (3 a b)
  show ?case
    using b64_bounds [of "of_char a" "of_char b" 0] b64_bounds(4) [of 0 "of_char b" 0]
    by (simp add: Let_def)
next
  case (4 a b c rest)
  then show ?case
    using b64_bounds [of "of_char a" "of_char b" "of_char c"]
      b64_bounds(5,6) [of 0 "of_char b" "of_char c"]
    by (simp add: Let_def)
qed

lemma base64_sextets: "base64 bs = map b64_char (sextets bs) @ padding bs"
  by (induction bs rule: sextets.induct) (simp_all add: Let_def)

lemma padding_cases:
  "(padding bs = [] \<and> length (sextets bs) mod 4 = 0) \<or>
   (padding bs = ''='' \<and> length (sextets bs) mod 4 = 3) \<or>
   (padding bs = ''=='' \<and> length (sextets bs) mod 4 = 2)"
  by (induction bs rule: sextets.induct) (simp_all add: Let_def)

lemma strip_padding_core:
  assumes "CHR ''='' \<notin> set core"
    and "(tail = [] \<and> length core mod 4 = 0) \<or> (tail = ''='' \<and> length core mod 4 = 3) \<or>
         (tail = ''=='' \<and> length core mod 4 = 2)"
  shows "strip_padding (core @ tail) = core"
proof (cases "rev core")
  case Nil
  then have "core = []" by simp
  with assms(2) show ?thesis
    by (auto simp: strip_padding_def)
next
  case (Cons x r)
  with assms(1) have x: "x \<noteq> CHR ''=''"
    by (metis list.set_intros(1) set_rev)
  from Cons have c: "core = rev r @ [x]"
    by (metis rev_rev_ident rev.simps(2))
  from assms(2) show ?thesis
  proof (elim disjE conjE)
    assume "tail = []" "length core mod 4 = 0"
    with Cons x show ?thesis
      by (simp add: strip_padding_def)
  next
    assume "tail = ''=''" "length core mod 4 = 3"
    with Cons x c show ?thesis
      by (simp add: strip_padding_def mod_Suc)
  next
    assume "tail = ''==''" "length core mod 4 = 2"
    with Cons x c show ?thesis
      by (simp add: strip_padding_def mod_Suc)
  qed
qed

lemma those_map_Some:
  "\<forall>x \<in> set xs. f x = Some (g x) \<Longrightarrow> those (map f xs) = Some (map g xs)"
  by (induction xs) auto

lemma split_group:
  fixes a k m :: nat
  shows "k < m \<Longrightarrow> (a * m + k) div m = a" "k < m \<Longrightarrow> (a * m + k) mod m = k"
  by simp_all

lemma high_nibble: "y < 256 \<Longrightarrow> y div 16 < (16 :: nat)"
  by (simp add: less_mult_imp_div_less)

lemma high_pair: "z < 256 \<Longrightarrow> z div 64 < (4 :: nat)"
  by (simp add: less_mult_imp_div_less)

lemma regroup1:
  fixes x y :: nat
  shows "y < 256 \<Longrightarrow> x div 4 * 4 + (x mod 4 * 16 + y div 16) div 16 = x"
  by (simp add: split_group(1) [OF high_nibble])

lemma regroup2:
  fixes x y z :: nat
  shows "y < 256 \<Longrightarrow> z < 256 \<Longrightarrow>
    (x mod 4 * 16 + y div 16) mod 16 * 16 + (y mod 16 * 4 + z div 64) div 4 = y"
  using high_nibble [of y] by (simp add: split_group(1) [OF high_pair])

lemma regroup3:
  fixes y z :: nat
  shows "z < 256 \<Longrightarrow> (y mod 16 * 4 + z div 64) mod 4 * 64 + z mod 64 = z"
  using high_pair [of z] by simp

lemma b64_bytes_sextets: "b64_bytes (sextets bs) = map of_char bs"
proof (induction bs rule: sextets.induct)
  case 1
  show ?case by simp
next
  case (2 a)
  from regroup1 [of 0 "of_char a"] show ?case
    by (simp add: Let_def)
next
  case (3 a b)
  from regroup1 [of "of_char b" "of_char a"] regroup2 [of "of_char b" 0 "of_char a"]
  show ?case
    by (simp add: Let_def)
next
  case (4 a b c rest)
  from regroup1 [of "of_char b" "of_char a"]
    regroup2 [of "of_char b" "of_char c" "of_char a"]
    regroup3 [of "of_char c" "of_char b"] 4
  show ?case
    by (simp add: Let_def)
qed

text \<open>The standard \<open>atob\<close> gives back the bytes whose base64 text it is given.\<close>

lemma atob_std_base64: "atob_std (base64 bs) = Some bs"
proof -
  let ?core = "map b64_char (sextets bs)"
  have plain: "\<forall>c \<in> set ?core. \<not> ascii_whitespace c \<and> c \<noteq> CHR ''=''"
    using sextets_bound [of bs] b64_char_plain by auto
  have pd: "\<forall>c \<in> set (padding bs). \<not> ascii_whitespace c"
    using padding_cases [of bs] by (auto simp: ascii_whitespace_def)
  have "filter (\<lambda>c. \<not> ascii_whitespace c) (base64 bs) = ?core @ padding bs"
    using plain pd by (simp add: base64_sextets)
  moreover have "strip_padding (?core @ padding bs) = ?core"
    using plain padding_cases [of bs] by (intro strip_padding_core) auto
  moreover have "length ?core mod 4 \<noteq> 1"
    using padding_cases [of bs] by auto
  moreover have "those (map (\<lambda>c. b64_index 0 c b64_alphabet) ?core) = Some (sextets bs)"
    using sextets_bound [of bs] those_map_Some [of "sextets bs" "\<lambda>v. b64_index 0 (b64_char v) b64_alphabet" id]
    by (simp add: b64_index_char comp_def)
  ultimately show ?thesis
    by (simp add: atob_std_def Let_def b64_bytes_sextets comp_def)
qed

lemma split_on_none: "c \<notin> set xs \<Longrightarrow> split_on c xs = [xs]"
  by (induction xs) auto

lemma split_on_once:
  "c \<notin> set xs \<Longrightarrow> c \<notin> set ys \<Longrightarrow> split_on c (xs @ c # ys) = [xs, ys]"
  by (induction xs) (auto simp: split_on_none)

text \<open>
  For a file whose type has no comma, \<open>fileToBase64\<close> turns what the file reader
  delivers into the base64 text of the bytes of the file.
\<close>

lemma fileToBase64_dataURL:
  assumes "CHR '','' \<notin> set (ftype f)" and "reader f = Some (dataURL f)"
  shows "fileToBase64 reader f = Inr (Some (base64 (content f)))"
proof -
  let ?head = "''data:'' @ (if ftype f = [] then ''application/octet-stream'' else ftype f) @
                 '';base64''"
  have "dataURL f = ?head @ CHR '','' # base64 (content f)"
    by (simp add: dataURL_def)
  moreover from assms(1) have "CHR '','' \<notin> set ?head"
    by auto
  ultimately have "split_on CHR '','' (dataURL f) = [?head, base64 (content f)]"
    using split_on_once [of "CHR '',''" ?head "base64 (content f)"] base64_no_comma
    by simp
  with assms(2) show ?thesis
    by (simp add: fileToBase64_def js_index_def)
qed

lemma valid_type_no_comma: "valid (validateImageFile f) \<Longrightarrow> CHR '','' \<notin> set (ftype f)"
  by (auto simp: validateImageFile_def allowedTypes_def split: if_splits)

lemma upload_of_valid: "upload_of e = Some f \<Longrightarrow> valid (validateImageFile f)"
  by (cases e rule: upload_of.cases) (auto split: if_splits)

lemma last_upload_valid: "last_upload es = Some f \<Longrightarrow> valid (validateImageFile f)"
proof (induction es)
  case Nil
  then show ?case by simp
next
  case (Cons e es)
  then show ?case
    by (cases "last_upload es") (auto dest: upload_of_valid)
qed


section \<open>Operations on the session\<close>

text \<open>What \<open>handleProcessImage\<close> shows and sends, branch by branch.\<close>

lemma handleProcessImage_effects:
  assumes "handleProcessImage env op ps s = (s', effs)"
  shows "effs = [Alert ''Please upload an image first''] \<or>
         effs = [Alert ''An error occurred while processing the image. Please try again.''] \<or>
         (\<exists>b result.
            result = fst (processImage (fetch env) (startTime env) (endTime env)
                            (request_for op ps b)) \<and>
            (effs = [Fetch (build_request (request_for op ps b))] \<and> success result \<or>
             effs = [Fetch (build_request (request_for op ps b)),
                     Alert (''Failed to process image: '' @
                            or_default (error result) ''Unknown error'')]))"
  using assms unfolding handleProcessImage_def
  by (auto simp: Let_def split: option.splits sum.splits prod.splits if_splits
        dest!: call_service_calls)

lemma handleProcessImage_fetches:
  assumes "handleProcessImage env op ps s = (s', effs)"
  shows "fetches effs =
           (case currentFile s of
              None \<Rightarrow> []
            | Some f \<Rightarrow>
                if currentImageUrl s = [] then []
                else (case fileToBase64 (readAsDataURL env) f of
                        Inl e \<Rightarrow> []
                      | Inr b \<Rightarrow> [build_request (request_for op ps b)]))"
  using assms unfolding handleProcessImage_def
  by (auto simp: Let_def split: option.splits sum.splits prod.splits if_splits
        dest!: call_service_calls)

lemma failure_not_success:
  assumes "network_failure (net (build_request request)) \<or>
           http_failure (net (build_request request)) \<or>
           parsing_failure (net (build_request request))"
  shows "\<not> success (fst (processImage net t0 t1 request))"
proof -
  from failure_throws [of net "build_request request", OF assms] obtain e
    where "processImage_try net (build_request request) = Inl e" by blast
  then show ?thesis
    by (simp add: processImage_result)
qed

text \<open>
  Claim C1 as the specification states it fails: the operation returns no failure result
  to its caller. With the service answering 500, the service call inside the handler
  returns a result with \<open>success\<close> false, and the promise of \<open>handleProcessImage\<close>
  settles with \<open>undefined\<close>.
\<close>

theorem handleProcessImage_returns_no_result_counterexample:
  "http_failure (fetch offline (sent ''style-transfer'' anime)) \<and>
   fst (call_service offline ''style-transfer'' anime (Some ''QUJD'')) =
     \<lparr>success = False, data = None,
      error = Some ''AI service error: 500 Internal Server Error'', processingTime = 150\<rparr> \<and>
   handleProcessImage_returns offline ''style-transfer'' anime styled = Inr None"
  by (simp add: http_failure_def offline_def ok_def outage_def handleProcessImage_returns_def
      styled_def uploaded_def initial_def and_then_def call_service_def applyStyleTransfer_def
      processImage_def Let_def processImage_try_def show_500 studio_def
      split: sum.splits)

text \<open>
  Claim C1, amended. When the remote call that \<open>handleProcessImage\<close> makes fails
  (rejected by the network, answered with a status outside 200 to 299, or answered with a
  body that cannot be read), the service returns a result with \<open>success\<close> false to the
  handler; the handler returns nothing to its caller (its promise settles with
  \<open>undefined\<close> and is never rejected) and shows an alert that carries the error of that
  result; the current image, the history, the index, the original image and the file are
  as before, and the session is no longer processing.
\<close>

theorem failed_remote_call_leaves_session_unchanged:
  assumes h: "handleProcessImage env op ps s = (s', effs)"
    and f: "\<forall>req \<in> set (fetches effs).
              network_failure (fetch env req) \<or> http_failure (fetch env req) \<or>
              parsing_failure (fetch env req)"
  shows "currentImageUrl s' = currentImageUrl s \<and>
         editHistory s' = editHistory s \<and>
         currentHistoryIndex s' = currentHistoryIndex s \<and>
         originalImageUrl s' = originalImageUrl s \<and>
         currentFile s' = currentFile s \<and>
         list_ex is_alert effs \<and>
         (\<forall>req \<in> set (fetches effs).
            (\<exists>b. req = build_request (request_for op ps b) \<and>
                 success (fst (call_service env op ps b)) = False \<and>
                 effs = [Fetch req,
                         Alert (''Failed to process image: '' @
                                or_default (error (fst (call_service env op ps b)))
                                  ''Unknown error'')]) \<and>
            isProcessing s' = False \<and> processingStatus s' = ProcessingFailed) \<and>
         handleProcessImage_returns env op ps s = Inr None"
proof -
  from handleProcessImage_effects [OF h]
  have e: "list_ex is_alert effs \<and>
           (\<forall>req \<in> set (fetches effs).
              \<exists>b. req = build_request (request_for op ps b) \<and>
                 success (fst (call_service env op ps b)) = False \<and>
                 effs = [Fetch req,
                         Alert (''Failed to process image: '' @
                                or_default (error (fst (call_service env op ps b)))
                                  ''Unknown error'')])"
  proof (elim disjE exE conjE)
    fix b result
    assume "effs = [Fetch (build_request (request_for op ps b))]"
      and "result = fst (processImage (fetch env) (startTime env) (endTime env)
                           (request_for op ps b))"
      and "success result"
    with f failure_not_success [of "fetch env" "request_for op ps b" "startTime env" "endTime env"]
    show ?thesis by simp
  next
    fix b result
    assume a: "effs = [Fetch (build_request (request_for op ps b)),
                       Alert (''Failed to process image: '' @
                              or_default (error result) ''Unknown error'')]"
      and r: "result = fst (processImage (fetch env) (startTime env) (endTime env)
                           (request_for op ps b))"
    from a f failure_not_success
           [of "fetch env" "request_for op ps b" "startTime env" "endTime env"]
    have "\<not> success (fst (processImage (fetch env) (startTime env) (endTime env)
                           (request_for op ps b)))"
      by simp
    with a r show ?thesis
      by (auto simp: call_service_request)
  qed auto
  with handleProcessImage_cases [OF h]
  have c: "s' = s \<or> s' = s\<lparr>isProcessing := False, processingStatus := ProcessingFailed\<rparr>"
    by blast
  have d: "s' = s\<lparr>isProcessing := False, processingStatus := ProcessingFailed\<rparr>"
    if "fetches effs \<noteq> []"
  proof -
    from that handleProcessImage_fetches [OF h] obtain fl b where
      "currentFile s = Some fl" "currentImageUrl s \<noteq> []"
      "fileToBase64 (readAsDataURL env) fl = Inr b"
      by (auto split: option.splits sum.splits if_splits)
    with h e show ?thesis
      unfolding handleProcessImage_def
      by (auto simp: Let_def list_ex_iff split: prod.splits if_splits)
  qed
  have g: "isProcessing s' = False \<and> processingStatus s' = ProcessingFailed"
    if "req \<in> set (fetches effs)" for req
  proof -
    from that have "fetches effs \<noteq> []" by auto
    from d [OF this] show ?thesis by simp
  qed
  from c have "currentImageUrl s' = currentImageUrl s \<and>
         editHistory s' = editHistory s \<and>
         currentHistoryIndex s' = currentHistoryIndex s \<and>
         originalImageUrl s' = originalImageUrl s \<and>
         currentFile s' = currentFile s"
    by auto
  moreover have "handleProcessImage_returns env op ps s = Inr None"
    by (simp add: handleProcessImage_returns_def and_then_def split: option.splits sum.splits)
  ultimately show ?thesis
    using e g by blast
qed

theorem failed_remote_call_leaves_session_unchanged_witness:
  "handleProcessImage offline ''style-transfer'' anime styled =
     (styled\<lparr>processingStatus := ProcessingFailed\<rparr>,
      [Fetch (sent ''style-transfer'' anime),
       Alert ''Failed to process image: AI service error: 500 Internal Server Error'']) \<and>
   fetches [Fetch (sent ''style-transfer'' anime),
       Alert ''Failed to process image: AI service error: 500 Internal Server Error''] =
     [sent ''style-transfer'' anime] \<and>
   http_failure (fetch offline (sent ''style-transfer'' anime)) \<and>
   currentImageUrl (styled\<lparr>processingStatus := ProcessingFailed\<rparr>) = ''https://cdn.test/a.png'' \<and>
   length (editHistory (styled\<lparr>processingStatus := ProcessingFailed\<rparr>)) = 1 \<and>
   currentHistoryIndex (styled\<lparr>processingStatus := ProcessingFailed\<rparr>) = 0 \<and>
   handleProcessImage_returns offline ''style-transfer'' anime styled = Inr None"
proof -
  have p: "handleProcessImage offline ''style-transfer'' anime styled =
     (styled\<lparr>processingStatus := ProcessingFailed\<rparr>,
      [Fetch (sent ''style-transfer'' anime),
       Alert ''Failed to process image: AI service error: 500 Internal Server Error''])"
    by (simp add: handleProcessImage_def styled_def uploaded_def initial_def sample_base64
        sample_times call_service_def applyStyleTransfer_def processImage_def sample_down
        Let_def anime_def style_of_def or_default_def sent_def)
  have r: "http_failure (fetch offline (sent ''style-transfer'' anime))"
    by (simp add: http_failure_def offline_def ok_def outage_def)
  then have q: "\<forall>req \<in> set (fetches [Fetch (sent ''style-transfer'' anime),
       Alert ''Failed to process image: AI service error: 500 Internal Server Error'']).
      network_failure (fetch offline req) \<or> http_failure (fetch offline req) \<or>
      parsing_failure (fetch offline req)"
    by simp
  from failed_remote_call_leaves_session_unchanged [OF p q] p r
  show ?thesis
    by (simp add: styled_def)
qed

text \<open>The current file is the one of the last upload.\<close>

lemma handleProcessImage_currentFile:
  "currentFile (fst (handleProcessImage env op ps s)) = currentFile s"
proof -
  obtain s' effs where h: "handleProcessImage env op ps s = (s', effs)"
    by (cases "handleProcessImage env op ps s")
  from handleProcessImage_cases [OF h] have "currentFile s' = currentFile s"
    by (auto simp: addToHistory_def Let_def)
  with h show ?thesis by simp
qed

lemma step_currentFile:
  "step e s = Inr s' \<Longrightarrow>
     currentFile s' = (case upload_of e of Some f \<Rightarrow> Some f | None \<Rightarrow> currentFile s)"
proof (cases e)
  case (Drop files url)
  assume "step e s = Inr s'"
  with Drop show ?thesis
    by (cases files; cases url)
       (auto simp: onDrop_def Let_def handleImageUpload_def)
next
  case (Process env op ps)
  assume "step e s = Inr s'"
  with Process handleProcessImage_currentFile [of env op ps s] show ?thesis
    by auto
next
  case Undo
  assume "step e s = Inr s'"
  with Undo show ?thesis
    by (auto simp: handleUndo_def split: if_splits option.splits)
next
  case Redo
  assume "step e s = Inr s'"
  with Redo show ?thesis
    by (auto simp: handleRedo_def split: if_splits option.splits)
next
  case Reset
  assume "step e s = Inr s'"
  with Reset show ?thesis
    by (auto simp: handleReset_def)
next
  case ShowOriginal
  assume "step e s = Inr s'"
  with ShowOriginal show ?thesis
    by (auto simp: jumpToOriginal_def)
next
  case (ShowEntry i)
  assume "step e s = Inr s'"
  with ShowEntry show ?thesis
    by (auto simp: jumpTo_def)
next
  case StatusTimer
  assume "step e s = Inr s'"
  with StatusTimer show ?thesis
    by auto
qed

lemma run_currentFile:
  "run es s = Inr s' \<Longrightarrow>
     currentFile s' = (case last_upload es of Some f \<Rightarrow> Some f | None \<Rightarrow> currentFile s)"
proof (induction es arbitrary: s)
  case Nil
  then show ?case by simp
next
  case (Cons e es)
  from Cons.prems obtain s1 where a: "step e s = Inr s1" and b: "run es s1 = Inr s'"
    by (auto simp: and_then_def split: sum.splits)
  from Cons.IH [OF b] step_currentFile [OF a] show ?case
    by (simp split: option.splits)
qed

text \<open>
  Claim C2. In a session reached by any sequence of actions, the file of the session is
  the one handed over by the last upload, no operation changes it, and the image that
  \<open>handleProcessImage\<close> sends is what \<open>fileToBase64\<close> makes of that file, whatever
  the current image, the history and the index are: one request when an image is loaded
  and the file can be read, none otherwise. When the file reader delivers the data URL of
  the file, the image sent is \<open>data:image/jpeg;base64,\<close> followed by the base64
  encoding of the bytes of the uploaded file, which the standard \<open>atob\<close> decodes to
  those bytes.
\<close>

theorem request_image_is_uploaded_file:
  assumes r: "run evs initial = Inr s"
    and h: "handleProcessImage env op ps s = (s', effs)"
  shows "currentFile s = last_upload evs \<and>
         currentFile s' = last_upload evs \<and>
         map (\<lambda>req. image_url (body req)) (fetches effs) =
           (case last_upload evs of
              None \<Rightarrow> []
            | Some f \<Rightarrow>
                if currentImageUrl s = [] then []
                else (case fileToBase64 (readAsDataURL env) f of
                        Inl e \<Rightarrow> []
                      | Inr b \<Rightarrow> [''data:image/jpeg;base64,'' @ interpolate b])) \<and>
         (\<forall>f. last_upload evs = Some f \<and> readAsDataURL env f = Some (dataURL f) \<longrightarrow>
            map (\<lambda>req. image_url (body req)) (fetches effs) =
              (if currentImageUrl s = [] then []
               else [''data:image/jpeg;base64,'' @ base64 (content f)]) \<and>
            atob_std (base64 (content f)) = Some (content f))"
proof -
  from run_currentFile [OF r] have a: "currentFile s = last_upload evs"
    by (simp add: initial_def split: option.splits)
  from handleProcessImage_currentFile [of env op ps s] h a
  have b: "currentFile s' = last_upload evs"
    by simp
  from handleProcessImage_fetches [OF h] a
  have c: "map (\<lambda>req. image_url (body req)) (fetches effs) =
           (case last_upload evs of
              None \<Rightarrow> []
            | Some f \<Rightarrow>
                if currentImageUrl s = [] then []
                else (case fileToBase64 (readAsDataURL env) f of
                        Inl e \<Rightarrow> []
                      | Inr b \<Rightarrow> [''data:image/jpeg;base64,'' @ interpolate b]))"
    by (simp add: image_url_build_request image_request_for split: option.splits sum.splits)
  have d: "map (\<lambda>req. image_url (body req)) (fetches effs) =
              (if currentImageUrl s = [] then []
               else [''data:image/jpeg;base64,'' @ base64 (content f)])"
    if l: "last_upload evs = Some f" and d: "readAsDataURL env f = Some (dataURL f)" for f
  proof -
    from valid_type_no_comma [OF last_upload_valid [OF l]]
    have "fileToBase64 (readAsDataURL env) f = Inr (Some (base64 (content f)))"
      using d by (rule fileToBase64_dataURL)
    with c l show ?thesis
      by (simp add: interpolate_def)
  qed
  from a b c d atob_std_base64 show ?thesis by blast
qed

theorem request_image_is_uploaded_file_witness:
  "run [Drop [photo] (Some ''blob:1''), Process studio ''style-transfer'' anime] initial =
     Inr styled \<and>
   currentImageUrl styled = ''https://cdn.test/a.png'' \<and>
   last_upload [Drop [photo] (Some ''blob:1''), Process studio ''style-transfer'' anime] =
     Some photo \<and>
   readAsDataURL studio photo = Some (dataURL photo) \<and>
   content photo = ''ABC'' \<and> base64 ''ABC'' = ''QUJD'' \<and> atob_std ''QUJD'' = Some ''ABC'' \<and>
   fileToBase64 (readAsDataURL studio) photo = Inr (Some ''QUJD'') \<and>
   map (\<lambda>req. image_url (body req))
     (fetches (snd (handleProcessImage studio ''enhance'' None styled))) =
     [''data:image/jpeg;base64,QUJD''] \<and>
   currentFile (fst (handleProcessImage studio ''enhance'' None styled)) = Some photo"
proof -
  obtain s' effs where h: "handleProcessImage studio ''enhance'' None styled = (s', effs)"
    by (cases "handleProcessImage studio ''enhance'' None styled")
  have l: "last_upload [Drop [photo] (Some ''blob:1''), Process studio ''style-transfer'' anime] =
     Some photo"
    by (simp add: sample_valid)
  have u: "currentImageUrl styled = ''https://cdn.test/a.png''"
    by (simp add: styled_def)
  have d: "readAsDataURL studio photo = Some (dataURL photo)"
    by (simp add: studio_def)
  have e: "content photo = ''ABC''" "base64 ''ABC'' = ''QUJD''"
    by (simp_all add: photo_def b64_char_def b64_alphabet_def Let_def)
  from request_image_is_uploaded_file [OF sample_session h] h l u d e sample_session
  show ?thesis
    by (simp add: sample_base64 interpolate_def)
qed

section \<open>Upload validation\<close>

text \<open>
  Claim C10. A file is valid exactly when its type is one of the five image types and its
  size is at most 10 * 1024 * 1024 bytes. A file that is not valid comes with an error
  message, and dropping it shows the message and leaves the session as it was; a valid
  file is handed to \<open>handleImageUpload\<close>.
\<close>

theorem validateImageFile_accepts_exactly:
  "valid (validateImageFile f) =
     (ftype f \<in> {''image/jpeg'', ''image/jpg'', ''image/png'', ''image/webp'', ''image/gif''} \<and>
      fsize f \<le> 10 * 1024 * 1024) \<and>
   (\<not> valid (validateImageFile f) \<longrightarrow>
      (\<exists>m. verror (validateImageFile f) = Some m \<and> m \<noteq> [] \<and>
           onDrop (f # fs) url s = (s, [Alert m]))) \<and>
   (valid (validateImageFile f) \<longrightarrow> onDrop (f # fs) url s = handleImageUpload f url s)"
  by (auto simp: validateImageFile_def allowedTypes_def maxSize_def onDrop_def Let_def
        interpolate_def)

theorem validateImageFile_accepts_exactly_witness:
  "valid (validateImageFile photo) \<and>
   onDrop [photo] (Some ''blob:1'') initial = (uploaded, []) \<and>
   \<not> valid (validateImageFile huge) \<and>
   onDrop [huge] (Some ''blob:2'') uploaded =
     (uploaded, [Alert ''Image size must be less than 10MB'']) \<and>
   \<not> valid (validateImageFile report) \<and>
   onDrop [report] (Some ''blob:3'') uploaded =
     (uploaded, [Alert ''Please upload a valid image file (JPEG, PNG, WebP, or GIF)''])"
proof -
  have a: "valid (validateImageFile photo)"
    by (simp add: sample_valid)
  have b: "\<not> valid (validateImageFile huge)"
    "verror (validateImageFile huge) = Some ''Image size must be less than 10MB''"
    by (simp_all add: validateImageFile_def huge_def allowedTypes_def maxSize_def)
  have c: "\<not> valid (validateImageFile report)"
    "verror (validateImageFile report) =
       Some ''Please upload a valid image file (JPEG, PNG, WebP, or GIF)''"
    by (simp_all add: validateImageFile_def report_def allowedTypes_def)
  from validateImageFile_accepts_exactly [of photo "[]" "Some ''blob:1''" initial]
       validateImageFile_accepts_exactly [of huge "[]" "Some ''blob:2''" uploaded]
       validateImageFile_accepts_exactly [of report "[]" "Some ''blob:3''" uploaded]
       a b c
  show ?thesis
    by (auto simp: handleImageUpload_def uploaded_def initial_def)
qed


section \<open>Export\<close>

text \<open>
  What the export panel does, by format. With \<open>png\<close> the quality is not read: the text
  after the first comma of the image data (the whole text when there is no comma) goes
  to \<open>atob\<close>, and the bytes it returns are downloaded as \<open>image/png\<close> under the
  generated name; when \<open>atob\<close> throws, there is only the alert. With any other format,
  once the image is decoded and the canvas has a context, the image is drawn (on white
  for \<open>jpg\<close> only) and the blob that \<open>toBlob\<close> delivers for the type
  \<open>image/<format>\<close> and the quality divided by 100 is saved under the generated name.
\<close>

lemma export_by_format:
  assumes "d \<noteq> []"
  shows "exportFormat s = ''png'' \<Longrightarrow>
           snd (handleDownload env (Some d) orig s) =
             (case atob env
                     (if CHR '','' \<in> set d
                      then (case js_index (split_on CHR '','' d) 1 of None \<Rightarrow> [] | Some b \<Rightarrow> b)
                      else d) of
                None \<Rightarrow> [ExportAlert ''Failed to export image. Please try again.'']
              | Some bytes \<Rightarrow>
                  [Download bytes ''image/png''
                     (generateFileName (customName s) orig (isoNow env) @ ''.png'')])"
    and "exportFormat s = ''png'' \<Longrightarrow>
           snd (handleDownload env (Some d) orig (s\<lparr>quality := q\<rparr>)) =
             snd (handleDownload env (Some d) orig s)"
    and "exportFormat s \<noteq> ''png'' \<Longrightarrow> loadImage env d = Some (w, h) \<Longrightarrow> hasContext env \<Longrightarrow>
           snd (handleDownload env (Some d) orig s) =
             (case toBlob env (w, h)
                     ((if exportFormat s = ''jpg'' then [FillRect ''white'' w h] else []) @
                      [DrawImage d])
                     (''image/'' @ exportFormat s) (of_int (quality s) / 100) of
                None \<Rightarrow> [ExportAlert ''Failed to export image. Please try again.'']
              | Some blob \<Rightarrow>
                  [SaveAs blob
                     (generateFileName (customName s) orig (isoNow env) @ ''.'' @
                      exportFormat s)])"
  using assms
  by (auto simp: handleDownload_def downloadImage_def convertAndDownload_def Let_def
        split: option.splits)

lemma atob_samples:
  "atob_std ''QUJD'' = Some ''ABC''"
  "atob_std ''blob:1'' = None"
  "atob_std ''https://cdn.test/a.png'' = None"
  by (simp_all add: atob_std_def strip_padding_def ascii_whitespace_def b64_alphabet_def
      Let_def char_of_def bit_Suc_0_iff)

lemma strip_padding_keeps:
  assumes "c \<in> set d" and "c \<noteq> CHR ''=''"
  shows "c \<in> set (strip_padding d)"
proof (cases "rev d")
  case Nil
  with assms show ?thesis by simp
next
  case (Cons x r)
  then have d: "d = rev r @ [x]"
    by (metis rev_rev_ident rev.simps(2))
  show ?thesis
  proof (cases r)
    case Nil
    with assms d Cons show ?thesis
      by (auto simp: strip_padding_def)
  next
    case (Cons y r')
    with d have "d = rev r' @ [y, x]" by simp
    with assms Cons \<open>rev d = x # r\<close> show ?thesis
      by (auto simp: strip_padding_def)
  qed
qed

lemma those_None: "None \<in> set xs \<Longrightarrow> those xs = None"
  by (induction xs) (auto split: option.splits)

lemma atob_std_colon: "CHR '':'' \<in> set d \<Longrightarrow> atob_std d = None"
proof -
  assume "CHR '':'' \<in> set d"
  then have "CHR '':'' \<in> set (filter (\<lambda>c. \<not> ascii_whitespace c) d)"
    by (simp add: ascii_whitespace_def)
  then have m: "CHR '':'' \<in> set (strip_padding (filter (\<lambda>c. \<not> ascii_whitespace c) d))"
    by (rule strip_padding_keeps) simp
  have "b64_index 0 CHR '':'' b64_alphabet = None"
    by (simp add: b64_alphabet_def)
  with m have "None \<in> set (map (\<lambda>c. b64_index 0 c b64_alphabet)
                         (strip_padding (filter (\<lambda>c. \<not> ascii_whitespace c) d)))"
    by force
  then show ?thesis
    by (simp add: atob_std_def Let_def those_None)
qed

text \<open>
  With the standard \<open>atob\<close>, the \<open>png\<close> export of image data that has a colon and no
  comma, as every object URL and every link has, is the alert and nothing else.
\<close>

lemma png_export_of_url:
  assumes "atob env = atob_std" and "exportFormat s = ''png''"
    and "CHR '':'' \<in> set d" and "CHR '','' \<notin> set d"
  shows "snd (handleDownload env (Some d) orig s) =
           [ExportAlert ''Failed to export image. Please try again.'']"
proof -
  from assms(3) have "d \<noteq> []" by auto
  from export_by_format(1) [OF this assms(2), of env orig] assms atob_std_colon [of d]
  show ?thesis by simp
qed

lemma sample_name:
  "generateFileName [] (Some ''photo.jpg'') ''2026-11-02T19:08:05.007Z'' =
     ''photo-edited-2026-11-02T19-08-05''"
  by (simp add: generateFileName_def trim_def strip_extension_def Let_def)

text \<open>
  Claim C8. The claim has the \<open>png\<close> export download the image data. The image the
  editor hands to the export panel right after an upload is the object URL of the file,
  and after an operation whose result is a link it is that link. For both, the \<open>png\<close>
  branch gives the URL to \<open>atob\<close>, which throws: the export ends with the alert and
  nothing is downloaded. The same two images are exported by the other branch, here as
  \<open>webp\<close>, and image data that is base64 text is downloaded as the claim says. The last
  line is an object URL as a browser makes it.
\<close>

theorem png_export_of_url_image_alerts:
  "exportFormat export_initial = ''png'' \<and>
   currentImageUrl uploaded = ''blob:1'' \<and>
   handleDownload browser (Some (currentImageUrl uploaded)) (Some (fname photo))
       export_initial =
     (export_initial, [ExportAlert ''Failed to export image. Please try again.'']) \<and>
   currentImageUrl styled = ''https://cdn.test/a.png'' \<and>
   handleDownload browser (Some (currentImageUrl styled)) (Some (fname photo))
       export_initial =
     (export_initial, [ExportAlert ''Failed to export image. Please try again.'']) \<and>
   snd (handleDownload browser (Some (currentImageUrl uploaded)) (Some (fname photo))
          (export_initial\<lparr>exportFormat := ''webp''\<rparr>)) =
     [SaveAs ''JFIF'' ''photo-edited-2026-11-02T19-08-05.webp''] \<and>
   snd (handleDownload browser (Some (currentImageUrl styled)) (Some (fname photo))
          (export_initial\<lparr>exportFormat := ''webp''\<rparr>)) =
     [SaveAs ''JFIF'' ''photo-edited-2026-11-02T19-08-05.webp''] \<and>
   snd (handleDownload browser (Some ''data:image/png;base64,QUJD'') (Some (fname photo))
          export_initial) =
     [Download ''ABC'' ''image/png'' ''photo-edited-2026-11-02T19-08-05.png''] \<and>
   snd (handleDownload browser
          (Some ''blob:http://localhost:3000/0b9d6c1e-5a1f-4e0c-9a57-3f2a8c6d4e21'')
          (Some (fname photo)) export_initial) =
     [ExportAlert ''Failed to export image. Please try again.'']"
proof -
  have "CHR '':'' \<in> set ''blob:http://localhost:3000/0b9d6c1e-5a1f-4e0c-9a57-3f2a8c6d4e21''"
    by simp
  from atob_std_colon [OF this] show ?thesis
    by (simp add: handleDownload_def downloadImage_def convertAndDownload_def Let_def
        export_initial_def browser_def uploaded_def initial_def styled_def photo_def
        atob_samples sample_name js_index_def)
qed

section \<open>File names\<close>

lemma digit_not_colon: "d < 10 \<Longrightarrow> digit d \<noteq> CHR '':''"
proof -
  assume "d < 10"
  then have "digit d \<in> set ''0123456789''"
    unfolding digit_def by (intro nth_mem) simp
  then show ?thesis by auto
qed

lemma show_nat_no_colon: "CHR '':'' \<notin> set (show_nat n)"
proof (induction n rule: show_nat.induct)
  case (1 n)
  show ?case
  proof (cases "n < 10")
    case True
    with digit_not_colon [of n] show ?thesis
      by (subst show_nat.simps) auto
  next
    case False
    with "1" have "CHR '':'' \<notin> set (show_nat (n div 10))" by simp
    moreover have "digit (n mod 10) \<noteq> CHR '':''"
      by (rule digit_not_colon) simp
    ultimately show ?thesis
      using False by (subst show_nat.simps) auto
  qed
qed

lemma show_nat_length: "0 < k \<Longrightarrow> n < 10 ^ k \<Longrightarrow> length (show_nat n) \<le> k"
proof (induction k arbitrary: n)
  case 0
  then show ?case by simp
next
  case (Suc k)
  show ?case
  proof (cases "n < 10")
    case True
    then show ?thesis
      by (subst show_nat.simps) simp
  next
    case False
    with Suc.prems have k: "0 < k"
      by (cases k) auto
    from Suc.prems have "n div 10 < 10 ^ k"
      by (simp add: less_mult_imp_div_less mult.commute)
    from Suc.IH [OF k this] False show ?thesis
      by (subst show_nat.simps) simp
  qed
qed

lemma pad_length: "0 < w \<Longrightarrow> n < 10 ^ w \<Longrightarrow> length (pad w n) = w"
  using show_nat_length [of w n] by (simp add: pad_def)

lemma pad_no_colon: "CHR '':'' \<notin> set (pad w n)"
  by (auto simp: pad_def show_nat_no_colon)

lemma pad_unchanged: "map (\<lambda>c. if c = CHR '':'' then CHR ''-'' else c) (pad w n) = pad w n"
  using pad_no_colon [of w n] by (intro map_idI) auto

text \<open>The first nineteen characters of the ISO time, colons replaced.\<close>

lemma timestamp_seconds:
  assumes "year t < 10000" "month t < 100" "day t < 100"
    and "hours t < 100" "minutes t < 100" "seconds t < 100"
  shows "map (\<lambda>c. if c = CHR '':'' then CHR ''-'' else c) (take 19 (toISOString t)) =
           pad 4 (year t) @ ''-'' @ pad 2 (month t) @ ''-'' @ pad 2 (day t) @ ''T'' @
           pad 2 (hours t) @ ''-'' @ pad 2 (minutes t) @ ''-'' @ pad 2 (seconds t)"
proof -
  let ?front = "pad 4 (year t) @ ''-'' @ pad 2 (month t) @ ''-'' @ pad 2 (day t) @ ''T'' @
           pad 2 (hours t) @ '':'' @ pad 2 (minutes t) @ '':'' @ pad 2 (seconds t)"
  from assms have l: "length (pad 4 (year t)) = 4" "length (pad 2 (month t)) = 2"
    "length (pad 2 (day t)) = 2" "length (pad 2 (hours t)) = 2"
    "length (pad 2 (minutes t)) = 2" "length (pad 2 (seconds t)) = 2"
    by (simp_all add: pad_length)
  then have n: "length ?front = 19" by simp
  have "toISOString t = ?front @ (''.'' @ pad 3 (milliseconds t) @ ''Z'')"
    by (simp add: toISOString_def)
  then have "take 19 (toISOString t) = ?front"
    using n by (metis append_eq_conv_conj)
  then show ?thesis
    by (simp add: pad_unchanged)
qed

lemma while_stops:
  "\<forall>c \<in> set xs. P c \<Longrightarrow> \<not> P y \<Longrightarrow>
     takeWhile P (xs @ y # ys) = xs \<and> dropWhile P (xs @ y # ys) = y # ys"
  by (induction xs) auto

lemma strip_extension_last:
  assumes "e \<noteq> []" and "\<forall>c \<in> set e. c \<noteq> CHR ''.'' \<and> c \<noteq> CHR ''/''"
  shows "strip_extension (b @ ''.'' @ e) = b"
proof -
  let ?plain = "\<lambda>c. c \<noteq> CHR ''.'' \<and> c \<noteq> CHR ''/''"
  have r: "rev (b @ ''.'' @ e) = rev e @ CHR ''.'' # rev b" by simp
  from assms(2) have "\<forall>c \<in> set (rev e). ?plain c" by simp
  then have t: "takeWhile ?plain (rev e @ CHR ''.'' # rev b) = rev e"
    and d: "dropWhile ?plain (rev e @ CHR ''.'' # rev b) = CHR ''.'' # rev b"
    using while_stops [of "rev e" ?plain "CHR ''.''" "rev b"] by simp_all
  from assms(1) show ?thesis
    unfolding strip_extension_def r Let_def t d by simp
qed

lemma strip_extension_none:
  assumes "\<not> (\<exists>b e. n = b @ ''.'' @ e \<and> e \<noteq> [] \<and>
                     (\<forall>c \<in> set e. c \<noteq> CHR ''.'' \<and> c \<noteq> CHR ''/''))"
  shows "strip_extension n = n"
proof (rule ccontr)
  let ?plain = "\<lambda>c. c \<noteq> CHR ''.'' \<and> c \<noteq> CHR ''/''"
  let ?t = "takeWhile ?plain (rev n)"
  assume "strip_extension n \<noteq> n"
  then obtain cs where d: "dropWhile ?plain (rev n) = CHR ''.'' # cs" and t: "?t \<noteq> []"
    unfolding strip_extension_def Let_def
    by (auto split: list.splits if_splits)
  have "rev n = ?t @ dropWhile ?plain (rev n)"
    by simp
  with d have "rev n = ?t @ CHR ''.'' # cs"
    by simp
  then have "rev (rev n) = rev (?t @ CHR ''.'' # cs)"
    by simp
  then have "n = rev cs @ ''.'' @ rev ?t"
    by simp
  moreover from t have "rev ?t \<noteq> []"
    by simp
  moreover have "\<forall>c \<in> set (rev ?t). c \<noteq> CHR ''.'' \<and> c \<noteq> CHR ''/''"
    by (auto dest: set_takeWhileD)
  ultimately show False
    using assms by blast
qed

lemma handleDownload_names:
  assumes "e \<in> set (snd (handleDownload env img orig s))" and "saved_name e = Some n"
  shows "n = generateFileName (customName s) orig (isoNow env) @ ''.'' @ exportFormat s"
  using assms
  by (auto simp: handleDownload_def Let_def downloadImage_def convertAndDownload_def
        split: option.splits prod.splits if_splits)

text \<open>
  Claim C9 as the specification states it fails twice. A custom name with white space
  around it is not used as typed, and a custom name of white space only is not used at
  all; and two exports within the same minute get different names, since the time in the
  name includes the seconds.
\<close>

theorem generateFileName_verbatim_minute_counterexample:
  "generateFileName '' report '' (Some ''photo.jpg'') (toISOString evening) = ''report'' \<and>
   generateFileName ''  '' (Some ''photo.jpg'') (toISOString evening) =
     ''photo-edited-2026-11-02T19-08-05'' \<and>
   minutes (evening\<lparr>seconds := 47\<rparr>) = minutes evening \<and>
   generateFileName [] (Some ''photo.jpg'') (toISOString (evening\<lparr>seconds := 47\<rparr>)) \<noteq>
     generateFileName [] (Some ''photo.jpg'') (toISOString evening)"
  by (simp add: generateFileName_def trim_def is_space_def strip_extension_def Let_def
      toISOString_def evening_def pad_def show_nat.simps digit_def)

text \<open>
  Claim C9, amended. For every export of the export panel: when the custom name is not
  empty after trimming, the trimmed name is the file name. Otherwise the file name is the
  base name, \<open>-edited-\<close> and the UTC time as \<open>YYYY-MM-DDTHH-mm-ss\<close>, to the second. The
  base name is \<open>edited-image\<close> when there is no original name; else it is the original
  name without its last extension, that is, the part before the dot when the name ends
  with a dot and one or more characters that are neither a dot nor a slash, and the whole
  name when it does not. Every file that \<open>handleDownload\<close> saves is named by this file
  name, a dot and the format.
\<close>

theorem generateFileName_trimmed_or_timestamped:
  assumes "year t < 10000" "month t < 100" "day t < 100"
    and "hours t < 100" "minutes t < 100" "seconds t < 100"
  shows "generateFileName custom orig (toISOString t) =
           (if trim custom \<noteq> [] then trim custom
            else (case orig of
                    None \<Rightarrow> ''edited-image''
                  | Some n \<Rightarrow> if n = [] then ''edited-image'' else strip_extension n) @
                 ''-edited-'' @
                 pad 4 (year t) @ ''-'' @ pad 2 (month t) @ ''-'' @ pad 2 (day t) @ ''T'' @
                 pad 2 (hours t) @ ''-'' @ pad 2 (minutes t) @ ''-'' @ pad 2 (seconds t)) \<and>
         (\<forall>b e. e \<noteq> [] \<and> (\<forall>c \<in> set e. c \<noteq> CHR ''.'' \<and> c \<noteq> CHR ''/'') \<longrightarrow>
            strip_extension (b @ ''.'' @ e) = b) \<and>
         (\<forall>n. \<not> (\<exists>b e. n = b @ ''.'' @ e \<and> e \<noteq> [] \<and>
                          (\<forall>c \<in> set e. c \<noteq> CHR ''.'' \<and> c \<noteq> CHR ''/'')) \<longrightarrow>
            strip_extension n = n) \<and>
         (\<forall>x \<in> set (snd (handleDownload env img orig s)). \<forall>n. saved_name x = Some n \<longrightarrow>
            n = generateFileName (customName s) orig (isoNow env) @ ''.'' @ exportFormat s)"
proof -
  have a: "generateFileName custom orig (toISOString t) =
           (if trim custom \<noteq> [] then trim custom
            else (case orig of
                    None \<Rightarrow> ''edited-image''
                  | Some n \<Rightarrow> if n = [] then ''edited-image'' else strip_extension n) @
                 ''-edited-'' @
                 pad 4 (year t) @ ''-'' @ pad 2 (month t) @ ''-'' @ pad 2 (day t) @ ''T'' @
                 pad 2 (hours t) @ ''-'' @ pad 2 (minutes t) @ ''-'' @ pad 2 (seconds t))"
    unfolding generateFileName_def Let_def timestamp_seconds [OF assms] by simp
  have b: "\<forall>b e. e \<noteq> [] \<and> (\<forall>c \<in> set e. c \<noteq> CHR ''.'' \<and> c \<noteq> CHR ''/'') \<longrightarrow>
            strip_extension (b @ ''.'' @ e) = b"
    using strip_extension_last by blast
  have c: "\<forall>n. \<not> (\<exists>b e. n = b @ ''.'' @ e \<and> e \<noteq> [] \<and>
                          (\<forall>c \<in> set e. c \<noteq> CHR ''.'' \<and> c \<noteq> CHR ''/'')) \<longrightarrow>
            strip_extension n = n"
    using strip_extension_none by blast
  have d: "\<forall>x \<in> set (snd (handleDownload env img orig s)). \<forall>n. saved_name x = Some n \<longrightarrow>
            n = generateFileName (customName s) orig (isoNow env) @ ''.'' @ exportFormat s"
    using handleDownload_names by blast
  from a b c d show ?thesis
    by (intro conjI)
qed

theorem generateFileName_trimmed_or_timestamped_witness:
  "year evening < 10000 \<and> month evening < 100 \<and> day evening < 100 \<and>
   hours evening < 100 \<and> minutes evening < 100 \<and> seconds evening < 100 \<and>
   trim '' report '' = ''report'' \<and>
   generateFileName '' report '' (Some ''photo.jpg'') (toISOString evening) = ''report'' \<and>
   trim ''  '' = [] \<and>
   generateFileName ''  '' (Some ''photo.jpg'') (toISOString evening) =
     ''photo-edited-2026-11-02T19-08-05'' \<and>
   generateFileName [] None (toISOString evening) =
     ''edited-image-edited-2026-11-02T19-08-05'' \<and>
   generateFileName [] (Some ''holiday'') (toISOString evening) =
     ''holiday-edited-2026-11-02T19-08-05'' \<and>
   generateFileName [] (Some ''archive.tar.gz'') (toISOString evening) =
     ''archive.tar-edited-2026-11-02T19-08-05'' \<and>
   generateFileName [] (Some ''my.photos/cover'') (toISOString evening) =
     ''my.photos/cover-edited-2026-11-02T19-08-05''"
proof -
  have r: "year evening < 10000" "month evening < 100" "day evening < 100"
    "hours evening < 100" "minutes evening < 100" "seconds evening < 100"
    by (simp_all add: evening_def)
  have t: "trim '' report '' = ''report''" "trim ''  '' = []" "trim [] = []"
    by (simp_all add: trim_def is_space_def)
  have p: "pad 4 (year evening) = ''2026''" "pad 2 (month evening) = ''11''"
    "pad 2 (day evening) = ''02''" "pad 2 (hours evening) = ''19''"
    "pad 2 (minutes evening) = ''08''" "pad 2 (seconds evening) = ''05''"
    by (simp_all add: evening_def pad_def show_nat.simps digit_def)
  have s: "strip_extension ''photo.jpg'' = ''photo''"
    "strip_extension ''holiday'' = ''holiday''"
    "strip_extension ''archive.tar.gz'' = ''archive.tar''"
    "strip_extension ''my.photos/cover'' = ''my.photos/cover''"
    by (simp_all add: strip_extension_def Let_def)
  have g: "generateFileName custom orig (toISOString evening) =
           (if trim custom \<noteq> [] then trim custom
            else (case orig of
                    None \<Rightarrow> ''edited-image''
                  | Some n \<Rightarrow> if n = [] then ''edited-image'' else strip_extension n) @
                 ''-edited-'' @
                 pad 4 (year evening) @ ''-'' @ pad 2 (month evening) @ ''-'' @
                 pad 2 (day evening) @ ''T'' @ pad 2 (hours evening) @ ''-'' @
                 pad 2 (minutes evening) @ ''-'' @ pad 2 (seconds evening))"
    for custom orig
    using generateFileName_trimmed_or_timestamped
            [OF r, of custom orig browser None export_initial]
    by blast
  from g [of "'' report ''" "Some ''photo.jpg''"] g [of "''  ''" "Some ''photo.jpg''"]
       g [of "[]" None] g [of "[]" "Some ''holiday''"] g [of "[]" "Some ''archive.tar.gz''"]
       g [of "[]" "Some ''my.photos/cover''"] r t p s
  show ?thesis
    by simp
qed

end
